theory Spec2Isabelle
  imports Complex_Main "HOL-Library.AList"
begin

section \<open>Python values as the program sees them\<close>

text \<open>
  The program in \<^verbatim>\<open>run.py\<close> receives its action requests as the result of
  \<^verbatim>\<open>json.loads\<close>, so a request is an arbitrary JSON value. The embedding keeps
  that: a value is one of the seven shapes JSON decoding produces, a dict is an
  association list in insertion order, and every builtin the program applies to a
  value (\<^verbatim>\<open>bool()\<close>, \<^verbatim>\<open>len()\<close>, \<^verbatim>\<open>x[i]\<close>, \<^verbatim>\<open>int()\<close>, iteration,
  slicing, hashing) is a function that returns the Python exception as a value.
  A finite float is a rational number; the three special floats are constructors.
\<close>

datatype pyfloat = Finite rat | PosInf | NegInf | NaN

datatype pyval =
    PNone
  | PBool bool
  | PInt int
  | PFloat pyfloat
  | PStr string
  | PList "pyval list"
  | PDict "(string \<times> pyval) list"

type_synonym pydict = "(string \<times> pyval) list"

text \<open>
  Exceptions. \<open>ValueError\<close> carries its message: the program raises it itself with
  five different messages, and the messages tell the validation failures apart
  from the unsupported-action failure.
\<close>

datatype error =
    ValueError string
  | TypeError
  | KeyError
  | IndexError
  | OverflowError
  | JSONDecodeError
  | EndpointError

text \<open>\<^verbatim>\<open>d.get(k)\<close>: the value, or None when the key is missing.\<close>

definition dict_get :: "pydict \<Rightarrow> string \<Rightarrow> pyval" where
  "dict_get d k = (case map_of d k of None \<Rightarrow> PNone | Some v \<Rightarrow> v)"

text \<open>\<^verbatim>\<open>d.get(k, default)\<close>.\<close>

definition dict_get_default :: "pydict \<Rightarrow> string \<Rightarrow> pyval \<Rightarrow> pyval" where
  "dict_get_default d k dflt = (case map_of d k of None \<Rightarrow> dflt | Some v \<Rightarrow> v)"

text \<open>\<^verbatim>\<open>d.update(items)\<close>: an existing key keeps its place, a new key goes last.\<close>

definition dict_update :: "pydict \<Rightarrow> pydict \<Rightarrow> pydict" where
  "dict_update d items = foldl (\<lambda>acc kv. AList.update (fst kv) (snd kv) acc) d items"

text \<open>Python's truth value of an object.\<close>

fun truthy :: "pyval \<Rightarrow> bool" where
  "truthy PNone = False"
| "truthy (PBool b) = b"
| "truthy (PInt n) = (n \<noteq> 0)"
| "truthy (PFloat f) = (f \<noteq> Finite 0)"
| "truthy (PStr s) = (s \<noteq> [])"
| "truthy (PList xs) = (xs \<noteq> [])"
| "truthy (PDict d) = (d \<noteq> [])"

text \<open>\<^verbatim>\<open>a or b\<close> on values.\<close>

definition py_or :: "pyval \<Rightarrow> pyval \<Rightarrow> pyval" where
  "py_or a b = (if truthy a then a else b)"

text \<open>\<^verbatim>\<open>len(v)\<close>: only strings, lists and dicts have a length.\<close>

fun py_len :: "pyval \<Rightarrow> error + nat" where
  "py_len (PStr s) = Inr (length s)"
| "py_len (PList xs) = Inr (length xs)"
| "py_len (PDict d) = Inr (length d)"
| "py_len _ = Inl TypeError"

text \<open>
  \<^verbatim>\<open>v[i]\<close> for the literal indices 0 and 1 the program uses. A dict decoded from
  JSON has string keys only, so an integer key is always missing.
\<close>

fun py_getitem :: "pyval \<Rightarrow> nat \<Rightarrow> error + pyval" where
  "py_getitem (PList xs) i = (if i < length xs then Inr (xs ! i) else Inl IndexError)"
| "py_getitem (PStr s) i = (if i < length s then Inr (PStr [s ! i]) else Inl IndexError)"
| "py_getitem (PDict d) i = Inl KeyError"
| "py_getitem _ i = Inl TypeError"

text \<open>\<^verbatim>\<open>v[:50]\<close>: strings and lists can be sliced, nothing else can.\<close>

fun py_slice50 :: "pyval \<Rightarrow> error + pyval" where
  "py_slice50 (PStr s) = Inr (PStr (take 50 s))"
| "py_slice50 (PList xs) = Inr (PList (take 50 xs))"
| "py_slice50 _ = Inl TypeError"

text \<open>
  \<^verbatim>\<open>for x in v\<close>: the elements of a list, the characters of a string, the keys
  of a dict; anything else is not iterable.
\<close>

fun py_iter :: "pyval \<Rightarrow> error + pyval list" where
  "py_iter (PList xs) = Inr xs"
| "py_iter (PStr s) = Inr (map (\<lambda>c. PStr [c]) s)"
| "py_iter (PDict d) = Inr (map (\<lambda>kv. PStr (fst kv)) d)"
| "py_iter _ = Inl TypeError"

text \<open>Lists and dicts cannot be hashed (dict lookup and set membership hash the key).\<close>

fun hashable :: "pyval \<Rightarrow> bool" where
  "hashable (PList xs) = False"
| "hashable (PDict d) = False"
| "hashable _ = True"

text \<open>Rounding towards zero, as \<^verbatim>\<open>int()\<close> does on a float.\<close>

definition py_trunc :: "rat \<Rightarrow> int" where
  "py_trunc q = (if 0 \<le> q then \<lfloor>q\<rfloor> else \<lceil>q\<rceil>)"

text \<open>\<^verbatim>\<open>xs[i]\<close> on a list with Python's negative indices.\<close>

definition py_index :: "'a list \<Rightarrow> int \<Rightarrow> 'a option" where
  "py_index xs i =
     (if 0 \<le> i \<and> i < int (length xs) then Some (xs ! nat i)
      else if i < 0 \<and> - int (length xs) \<le> i then Some (xs ! nat (int (length xs) + i))
      else None)"

section \<open>The data model: monitors, input events, messages\<close>

record monitor =
  mon_left :: int
  mon_top :: int
  mon_width :: int
  mon_height :: int

datatype button = BLeft | BRight | BMiddle

text \<open>
  Every call the program makes on the input backend (\<^verbatim>\<open>pyautogui\<close>), the capture
  backend (\<^verbatim>\<open>mss\<close>), the clock (\<^verbatim>\<open>time.sleep\<close>), the file system and standard
  output is one event; the trace of a run is the list of its events in the order of
  the calls. A click without a position is \<open>Click None b\<close>: the backend then clicks
  where the cursor is.
\<close>

datatype event =
    MoveTo int int rat
  | Click "(int \<times> int) option" button
  | DoubleClick int int
  | TripleClick int int
  | MouseDown
  | DragTo int int rat button
  | MouseUp
  | Scroll int
  | HScroll int
  | Typewrite pyval rat
  | KeyDown pyval
  | KeyUp pyval
  | Sleep rat
  | Grab monitor
  | SavePng string
  | Print string

record tool_call =
  call_id :: string
  fn_name :: string
  fn_arguments :: "string option"

record reply =
  content :: "string option"
  tool_calls :: "tool_call list option"

datatype message =
    SystemMsg string
  | UserMsg string
  | AssistantMsg reply
  | ToolMsg string string string

text \<open>
  What the program calls and does not define: the JSON codec, Python's \<^verbatim>\<open>str()\<close>
  and \<^verbatim>\<open>repr()\<close>, \<^verbatim>\<open>int()\<close> on a string and \<^verbatim>\<open>float()\<close>, the model endpoint, the monitors, the
  encoded capture, the cursor position, the clock and the path arithmetic. They are
  parameters of the embedding. Those that read the outside world take the trace so
  far, so that they may answer differently after every event. A call on a backend
  is assumed to return.
\<close>

record host =
  json_loads :: "string \<Rightarrow> pyval option"
  json_dumps :: "pyval \<Rightarrow> string"
  py_str :: "pyval \<Rightarrow> string"
  py_repr :: "pyval \<Rightarrow> string"
  int_of_str :: "string \<Rightarrow> int option"
  py_float :: "pyval \<Rightarrow> error + pyfloat"
  create :: "message list \<Rightarrow> error + reply list"
  monitors :: "event list \<Rightarrow> monitor list"
  png_b64 :: "event list \<Rightarrow> monitor \<Rightarrow> string"
  position :: "event list \<Rightarrow> int \<times> int"
  now_ts :: "event list \<Rightarrow> string"
  path_str :: "string \<Rightarrow> string \<Rightarrow> string"

text \<open>
  \<^verbatim>\<open>int(v)\<close>. The message for a string that is no integer literal ends with the
  \<^verbatim>\<open>repr\<close> of the string.
\<close>

fun py_int :: "host \<Rightarrow> pyval \<Rightarrow> error + int" where
  "py_int h PNone = Inl TypeError"
| "py_int h (PBool b) = Inr (if b then 1 else 0)"
| "py_int h (PInt n) = Inr n"
| "py_int h (PFloat (Finite q)) = Inr (py_trunc q)"
| "py_int h (PFloat NaN) = Inl (ValueError ''cannot convert float NaN to integer'')"
| "py_int h (PFloat PosInf) = Inl OverflowError"
| "py_int h (PFloat NegInf) = Inl OverflowError"
| "py_int h (PStr s) =
     (case int_of_str h s of
        None \<Rightarrow>
          Inl (ValueError (''invalid literal for int() with base 10: '' @ py_repr h (PStr s)))
      | Some n \<Rightarrow> Inr n)"
| "py_int h (PList xs) = Inl TypeError"
| "py_int h (PDict d) = Inl TypeError"

section \<open>The action executor\<close>

text \<open>
  The embedding covers \<^verbatim>\<open>_ensure_xy\<close>, \<^verbatim>\<open>_maybe_int\<close>, the methods of
  \<^verbatim>\<open>ComputerUseTool\<close> that serve a request, and \<^verbatim>\<open>ComputerUseAgent.run\<close> with
  the state it works on. The start of the process (argument parsing, the display
  check, the construction of the client and of the tool) and the two summary lines
  that \<^verbatim>\<open>main\<close> prints after the run are outside it.
\<close>

record tool_cfg =
  screenshot_dir :: string
  monitor_index :: int
  mouse_move_duration :: rat
  drag_duration :: rat

type_synonym handler =
  "host \<Rightarrow> tool_cfg \<Rightarrow> pydict \<Rightarrow> event list \<Rightarrow> (error + pydict) \<times> event list"

definition coordinate_required :: string where
  "coordinate_required = ''coordinate=[x, y] is required for this action.''"

text \<open>
  \<^verbatim>\<open>_ensure_xy\<close>: a falsy value or a length other than 2 is a ValueError; the
  two elements are read and converted in the order of the list display.
\<close>

definition ensure_xy :: "host \<Rightarrow> pyval \<Rightarrow> error + (int \<times> int)" where
  "ensure_xy h coordinate =
     (if \<not> truthy coordinate then Inl (ValueError coordinate_required)
      else
        (case py_len coordinate of
           Inl e \<Rightarrow> Inl e
         | Inr n \<Rightarrow>
             (if n \<noteq> 2 then Inl (ValueError coordinate_required)
              else
                (case py_getitem coordinate 0 of
                   Inl e \<Rightarrow> Inl e
                 | Inr a \<Rightarrow>
                     (case py_int h a of
                        Inl e \<Rightarrow> Inl e
                      | Inr x \<Rightarrow>
                          (case py_getitem coordinate 1 of
                             Inl e \<Rightarrow> Inl e
                           | Inr b \<Rightarrow>
                               (case py_int h b of
                                  Inl e \<Rightarrow> Inl e
                                | Inr y \<Rightarrow> Inr (x, y))))))))"

text \<open>\<^verbatim>\<open>_maybe_int\<close> with its default of 0.\<close>

definition maybe_int :: "host \<Rightarrow> pyval \<Rightarrow> error + int" where
  "maybe_int h v = (if v \<noteq> PNone then py_int h v else Inr 0)"

text \<open>The text \<^verbatim>\<open>(x, y)\<close> that the detail strings interpolate.\<close>

definition at_xy :: "host \<Rightarrow> int \<Rightarrow> int \<Rightarrow> string" where
  "at_xy h x y = ''('' @ py_str h (PInt x) @ '', '' @ py_str h (PInt y) @ '')''"

definition ok_result :: "string \<Rightarrow> pydict" where
  "ok_result detail = [(''status'', PStr ''ok''), (''detail'', PStr detail)]"

definition mouse_move :: handler where
  "mouse_move h cfg params tr =
     (case ensure_xy h (dict_get params ''coordinate'') of
        Inl e \<Rightarrow> (Inl e, tr)
      | Inr (x, y) \<Rightarrow>
          (Inr (ok_result (''Moved to '' @ at_xy h x y @ ''.'')),
           tr @ [MoveTo x y (mouse_move_duration cfg)]))"

text \<open>
  \<^verbatim>\<open>_left_click\<close>, \<^verbatim>\<open>_right_click\<close> and \<^verbatim>\<open>_middle_click\<close> are the same
  text but for the button and the word that names it: a truthy coordinate goes
  through \<^verbatim>\<open>_ensure_xy\<close>, a falsy one (missing, null, empty) clicks in place.
\<close>

definition click_handler :: "button \<Rightarrow> string \<Rightarrow> handler" where
  "click_handler b word h cfg params tr =
     (let coord = dict_get params ''coordinate'' in
      if truthy coord then
        (case ensure_xy h coord of
           Inl e \<Rightarrow> (Inl e, tr)
         | Inr (x, y) \<Rightarrow>
             (Inr (ok_result (word @ '' click at '' @ at_xy h x y @ ''.'')),
              tr @ [Click (Some (x, y)) b]))
      else
        (Inr (ok_result (word @ '' click at current cursor.'')), tr @ [Click None b]))"

definition left_click :: handler where
  "left_click = click_handler BLeft ''Left''"

definition right_click :: handler where
  "right_click = click_handler BRight ''Right''"

definition middle_click :: handler where
  "middle_click = click_handler BMiddle ''Middle''"

definition double_click :: handler where
  "double_click h cfg params tr =
     (case ensure_xy h (dict_get params ''coordinate'') of
        Inl e \<Rightarrow> (Inl e, tr)
      | Inr (x, y) \<Rightarrow>
          (Inr (ok_result (''Double click at '' @ at_xy h x y @ ''.'')),
           tr @ [DoubleClick x y]))"

definition triple_click :: handler where
  "triple_click h cfg params tr =
     (case ensure_xy h (dict_get params ''coordinate'') of
        Inl e \<Rightarrow> (Inl e, tr)
      | Inr (x, y) \<Rightarrow>
          (Inr (ok_result (''Triple click at '' @ at_xy h x y @ ''.'')),
           tr @ [TripleClick x y]))"

definition left_click_drag :: handler where
  "left_click_drag h cfg params tr =
     (case ensure_xy h (dict_get params ''coordinate'') of
        Inl e \<Rightarrow> (Inl e, tr)
      | Inr (x, y) \<Rightarrow>
          (Inr (ok_result (''Drag to '' @ at_xy h x y @ ''.'')),
           tr @ [MouseDown, DragTo x y (drag_duration cfg) BLeft, MouseUp]))"

definition scroll :: handler where
  "scroll h cfg params tr =
     (case maybe_int h (dict_get params ''pixels'') of
        Inl e \<Rightarrow> (Inl e, tr)
      | Inr pixels \<Rightarrow>
          (Inr (ok_result (''Scroll '' @ py_str h (PInt pixels) @ '' vertically.'')),
           tr @ [Scroll pixels]))"

definition hscroll :: handler where
  "hscroll h cfg params tr =
     (case maybe_int h (dict_get params ''pixels'') of
        Inl e \<Rightarrow> (Inl e, tr)
      | Inr pixels \<Rightarrow>
          (Inr (ok_result (''Scroll '' @ py_str h (PInt pixels) @ '' horizontally.'')),
           tr @ [HScroll pixels]))"

text \<open>
  \<^verbatim>\<open>_type\<close>: only None is refused. The text is handed to the backend before
  the detail string slices it, so a text that cannot be sliced fails after the event.
\<close>

definition type_text :: handler where
  "type_text h cfg params tr =
     (let text = dict_get params ''text'' in
      if text = PNone then (Inl (ValueError ''text is required for action=type.''), tr)
      else
        (let tr' = tr @ [Typewrite text (1 / 100)] in
         case py_slice50 text of
           Inl e \<Rightarrow> (Inl e, tr')
         | Inr t \<Rightarrow>
             (Inr (ok_result (''Typed '' @ [CHR 0x22] @ py_str h t @ [CHR 0x22] @ ''.'')), tr')))"

text \<open>
  \<^verbatim>\<open>_key\<close>: all keys go down in request order, then up in reverse order.
\<close>

definition key :: handler where
  "key h cfg params tr =
     (let keys = py_or (dict_get params ''keys'') (PList []) in
      if \<not> truthy keys then (Inl (ValueError ''keys is required for action=key.''), tr)
      else case py_iter keys of
        Inl e \<Rightarrow> (Inl e, tr)
      | Inr ks \<Rightarrow>
          (Inr (ok_result (''Pressed keys '' @ py_str h keys @ ''.'')),
           tr @ map KeyDown ks @ map KeyUp (rev ks)))"

text \<open>
  \<^verbatim>\<open>_wait\<close>: \<^verbatim>\<open>time.sleep\<close> refuses a NaN and a negative length with a
  ValueError, and with an OverflowError a length that its clock cannot hold: the
  clock counts nanoseconds, rounded up, in a signed 64-bit integer.
\<close>

definition sleep_overflows :: "rat \<Rightarrow> bool" where
  "sleep_overflows q = (2 ^ 63 \<le> \<lceil>q * 10 ^ 9\<rceil>)"

definition wait :: handler where
  "wait h cfg params tr =
     (let duration = dict_get params ''time'' in
      if duration = PNone then (Inl (ValueError ''time is required for action=wait.''), tr)
      else case py_float h duration of
        Inl e \<Rightarrow> (Inl e, tr)
      | Inr NaN \<Rightarrow> (Inl (ValueError ''Invalid value NaN (not a number)''), tr)
      | Inr NegInf \<Rightarrow> (Inl (ValueError ''sleep length must be non-negative''), tr)
      | Inr PosInf \<Rightarrow> (Inl OverflowError, tr)
      | Inr (Finite q) \<Rightarrow>
          if q < 0 then (Inl (ValueError ''sleep length must be non-negative''), tr)
          else if sleep_overflows q then (Inl OverflowError, tr)
          else (Inr (ok_result (''Waited '' @ py_str h duration @ '' seconds.'')),
                tr @ [Sleep q]))"

definition answer :: handler where
  "answer h cfg params tr =
     (let text = py_or (dict_get params ''text'') (PStr []) in
      (Inr [(''status'', PStr ''answer''), (''text'', text)], tr))"

definition terminate :: handler where
  "terminate h cfg params tr =
     (let status = dict_get params ''status'' in
      if \<not> hashable status then (Inl TypeError, tr)
      else if status \<noteq> PStr ''success'' \<and> status \<noteq> PStr ''failure'' then
        (Inl (ValueError ''status must be success or failure for action=terminate.''), tr)
      else (Inr [(''status'', PStr ''terminate''), (''result'', status)], tr))"

text \<open>
  \<^verbatim>\<open>_attach_screenshot\<close>: the configured monitor is looked up first (an index out
  of range raises), then the capture is taken, saved under a time-stamped name and
  encoded, the cursor is read, and the four entries are merged into the payload.
\<close>

definition attach_screenshot ::
  "host \<Rightarrow> tool_cfg \<Rightarrow> pydict \<Rightarrow> event list \<Rightarrow> (error + pydict) \<times> event list" where
  "attach_screenshot h cfg payload tr =
     (case py_index (monitors h tr) (monitor_index cfg) of
        None \<Rightarrow> (Inl IndexError, tr)
      | Some mon \<Rightarrow>
          (let tr1 = tr @ [Grab mon];
               path = path_str h (screenshot_dir cfg) (now_ts h tr1 @ ''.png'');
               tr2 = tr1 @ [SavePng path];
               encoded = png_b64 h tr mon;
               cursor = position h tr2
           in (Inr (dict_update payload
                 [(''screenshot'', PStr (''data:image/png;base64,'' @ encoded)),
                  (''screenshot_path'', PStr path),
                  (''cursor'', PDict [(''x'', PInt (fst cursor)), (''y'', PInt (snd cursor))]),
                  (''display'', PDict [(''width'', PInt (mon_width mon)),
                                       (''height'', PInt (mon_height mon))])]),
               tr2)))"

text \<open>The dispatch table of \<^verbatim>\<open>call\<close>, in the order of the source.\<close>

definition handlers :: "(string \<times> handler) list" where
  "handlers =
     [(''mouse_move'', mouse_move),
      (''left_click'', left_click),
      (''right_click'', right_click),
      (''middle_click'', middle_click),
      (''double_click'', double_click),
      (''triple_click'', triple_click),
      (''left_click_drag'', left_click_drag),
      (''scroll'', scroll),
      (''hscroll'', hscroll),
      (''type'', type_text),
      (''key'', key),
      (''wait'', wait),
      (''answer'', answer),
      (''terminate'', terminate)]"

text \<open>
  \<^verbatim>\<open>{...}.get(action)\<close>: an unhashable action raises, a string is looked up,
  any other value is not a key of the table.
\<close>

definition handler_of :: "pyval \<Rightarrow> error + handler option" where
  "handler_of action =
     (if \<not> hashable action then Inl TypeError
      else case action of PStr a \<Rightarrow> Inr (map_of handlers a) | _ \<Rightarrow> Inr None)"

text \<open>
  \<^verbatim>\<open>ComputerUseTool.call\<close>. Its argument is whatever the JSON decoder returned:
  subscripting anything but a dict with \<^verbatim>\<open>"action"\<close> is a TypeError, a dict
  without the key a KeyError.
\<close>

definition call ::
  "host \<Rightarrow> tool_cfg \<Rightarrow> pyval \<Rightarrow> event list \<Rightarrow> (error + pydict) \<times> event list" where
  "call h cfg params tr =
     (case params of
        PDict d \<Rightarrow>
          (case map_of d ''action'' of
             None \<Rightarrow> (Inl KeyError, tr)
           | Some action \<Rightarrow>
               (case handler_of action of
                  Inl e \<Rightarrow> (Inl e, tr)
                | Inr None \<Rightarrow>
                    (Inl (ValueError (''Unsupported action: '' @ py_str h action)), tr)
                | Inr (Some handler) \<Rightarrow>
                    (case handler h cfg d tr of
                       (Inl e, tr') \<Rightarrow> (Inl e, tr')
                     | (Inr result, tr') \<Rightarrow>
                         if action = PStr ''answer'' \<or> action = PStr ''terminate''
                         then (Inr result, tr')
                         else attach_screenshot h cfg result tr')))
      | _ \<Rightarrow> (Inl TypeError, tr))"

section \<open>The conversation loop\<close>

text \<open>\<^verbatim>\<open>ToolResult.as_json\<close>: the payload serialised by the JSON codec.\<close>

definition as_json :: "host \<Rightarrow> pydict \<Rightarrow> string" where
  "as_json h payload = json_dumps h (PDict payload)"

definition SYSTEM_PROMPT :: string where
  "SYSTEM_PROMPT =
     ''You are an automation agent with direct access to a GUI computer.'' @ [CHR 0x0A] @
     ''- Be precise and avoid unnecessary movements.'' @ [CHR 0x0A] @
     ''- Always inspect the most recent screenshot before clicking.'' @ [CHR 0x0A] @
     ''- If an application needs time to load, wait before taking more actions.'' @ [CHR 0x0A] @
     ''- You must finish by calling action=answer with the final response and action=terminate with success/failure.''"

text \<open>
  The mutable fields of \<^verbatim>\<open>ComputerUseAgent\<close>, and the trace of the events so
  far. \<open>final_answer\<close> and \<open>terminated\<close> hold a Python value, None at first.
\<close>

record agent =
  messages :: "message list"
  final_answer :: pyval
  terminated :: pyval
  trace :: "event list"

definition init_agent :: "string \<Rightarrow> agent" where
  "init_agent task =
     \<lparr>messages = [SystemMsg SYSTEM_PROMPT, UserMsg task],
      final_answer = PNone,
      terminated = PNone,
      trace = []\<rparr>"

text \<open>\<^verbatim>\<open>tool_call.function.arguments or "{}"\<close>.\<close>

definition arguments_text :: "tool_call \<Rightarrow> string" where
  "arguments_text tc =
     (case fn_arguments tc of
        None \<Rightarrow> ''{}''
      | Some a \<Rightarrow> if a = [] then ''{}'' else a)"

text \<open>
  The body of the inner \<^verbatim>\<open>for tool_call in tool_calls\<close> loop. Nothing in the
  program catches an exception, so a decoding error or an executor error leaves
  the body there: the result is the exception and the state reached so far.
\<close>

definition dispatch :: "host \<Rightarrow> tool_cfg \<Rightarrow> tool_call \<Rightarrow> agent \<Rightarrow> error option \<times> agent" where
  "dispatch h cfg tc s =
     (case json_loads h (arguments_text tc) of
        None \<Rightarrow> (Some JSONDecodeError, s)
      | Some arguments \<Rightarrow>
          (case call h cfg arguments (trace s) of
             (Inl e, tr) \<Rightarrow> (Some e, s\<lparr>trace := tr\<rparr>)
           | (Inr payload, tr) \<Rightarrow>
               (let s1 = s\<lparr>trace := tr\<rparr>;
                    s2 = (if dict_get payload ''status'' = PStr ''answer'' then
                            (let fa = dict_get_default payload ''text'' (PStr []) in
                             s1\<lparr>final_answer := fa,
                                trace := trace s1 @ [Print (''[Agent Answer] '' @ py_str h fa)]\<rparr>)
                          else s1);
                    s3 = (if dict_get payload ''status'' = PStr ''terminate'' then
                            (let t = dict_get payload ''result'' in
                             s2\<lparr>terminated := t,
                                trace := trace s2 @ [Print (''[Terminate] status='' @ py_str h t)]\<rparr>)
                          else s2)
                in (None,
                    s3\<lparr>messages := messages s3 @
                       [ToolMsg (call_id tc) (fn_name tc) (as_json h payload)]\<rparr>))))"

text \<open>The inner loop: the calls in order, stopping only at an exception.\<close>

fun dispatch_all ::
  "host \<Rightarrow> tool_cfg \<Rightarrow> tool_call list \<Rightarrow> agent \<Rightarrow> error option \<times> agent" where
  "dispatch_all h cfg [] s = (None, s)"
| "dispatch_all h cfg (tc # tcs) s =
     (case dispatch h cfg tc s of
        (Some e, s') \<Rightarrow> (Some e, s')
      | (None, s') \<Rightarrow> dispatch_all h cfg tcs s')"

text \<open>
  \<^verbatim>\<open>ComputerUseAgent.run\<close>: the outer \<^verbatim>\<open>for step in range(1, max_turns + 1)\<close>
  as recursion on the number of turns left. The endpoint's answer is the first of
  its choices; a reply without tool calls ends the run with its text as the final
  answer; after a round of tool calls the run ends when \<open>terminated\<close> is truthy.
\<close>

fun run_loop :: "host \<Rightarrow> tool_cfg \<Rightarrow> nat \<Rightarrow> agent \<Rightarrow> error option \<times> agent" where
  "run_loop h cfg 0 s = (None, s)"
| "run_loop h cfg (Suc n) s =
     (case create h (messages s) of
        Inl e \<Rightarrow> (Some e, s)
      | Inr choices \<Rightarrow>
          (case choices of
             [] \<Rightarrow> (Some IndexError, s)
           | msg # _ \<Rightarrow>
               (let s1 = s\<lparr>messages := messages s @ [AssistantMsg msg]\<rparr>;
                    tcs = (case tool_calls msg of None \<Rightarrow> [] | Some cs \<Rightarrow> cs)
                in if tcs = [] then
                     (let text = (case content msg of
                                    None \<Rightarrow> []
                                  | Some c \<Rightarrow> if c = [] then [] else c)
                      in (None, s1\<lparr>final_answer := PStr text,
                                   trace := trace s1 @ [Print (''[Assistant] '' @ text)]\<rparr>))
                   else
                     (case dispatch_all h cfg tcs s1 of
                        (Some e, s2) \<Rightarrow> (Some e, s2)
                      | (None, s2) \<Rightarrow>
                          if truthy (terminated s2) then (None, s2)
                          else run_loop h cfg n s2))))"

definition run :: "host \<Rightarrow> tool_cfg \<Rightarrow> int \<Rightarrow> agent \<Rightarrow> error option \<times> agent" where
  "run h cfg max_turns s = run_loop h cfg (nat max_turns) s"

section \<open>Predicates of the specification\<close>

text \<open>The \<^verbatim>\<open>action\<close> field of a request, None when there is none.\<close>

definition action_of :: "pyval \<Rightarrow> pyval" where
  "action_of params = (case params of PDict d \<Rightarrow> dict_get d ''action'' | _ \<Rightarrow> PNone)"

text \<open>The four entries that \<^verbatim>\<open>_attach_screenshot\<close> merges into a payload.\<close>

definition screenshot_keys :: "string list" where
  "screenshot_keys = [''screenshot'', ''screenshot_path'', ''cursor'', ''display'']"

text \<open>
  A payload has a screenshot when the four entries are there with the content of a
  screenshot reference: the image is a string that starts as a PNG data URI, the
  path is a string, the cursor is a dict of the two integers \<^verbatim>\<open>x\<close> and \<^verbatim>\<open>y\<close>,
  the display a dict of the two integers \<^verbatim>\<open>width\<close> and \<^verbatim>\<open>height\<close>. An entry
  that is null or of another shape does not count.
\<close>

definition is_data_uri :: "pyval \<Rightarrow> bool" where
  "is_data_uri v =
     (case v of PStr s \<Rightarrow> take 22 s = ''data:image/png;base64,'' | _ \<Rightarrow> False)"

definition is_path :: "pyval \<Rightarrow> bool" where
  "is_path v = (case v of PStr s \<Rightarrow> True | _ \<Rightarrow> False)"

definition is_int_pair :: "string \<Rightarrow> string \<Rightarrow> pyval \<Rightarrow> bool" where
  "is_int_pair k1 k2 v =
     (case v of
        PDict [(a, PInt x), (b, PInt y)] \<Rightarrow> a = k1 \<and> b = k2
      | _ \<Rightarrow> False)"

definition has_screenshot :: "pydict \<Rightarrow> bool" where
  "has_screenshot p =
     (is_data_uri (dict_get p ''screenshot'') \<and>
      is_path (dict_get p ''screenshot_path'') \<and>
      is_int_pair ''x'' ''y'' (dict_get p ''cursor'') \<and>
      is_int_pair ''width'' ''height'' (dict_get p ''display''))"

text \<open>
  The screenshot that a call ending with the trace \<open>tr'\<close> must have attached: the
  configured monitor exists, the last two events of the trace are its capture and
  the saving of the file; the image is the capture taken after the events of the action, encoded and
  prefixed; the path is the time-stamped file in the screenshot directory, the one
  saved; the cursor is the position read last; the display is the geometry of the
  captured monitor.
\<close>

definition attached_screenshot :: "host \<Rightarrow> tool_cfg \<Rightarrow> event list \<Rightarrow> pydict \<Rightarrow> bool" where
  "attached_screenshot h cfg tr' p =
     (let before = butlast (butlast tr') in
      case py_index (monitors h before) (monitor_index cfg) of
        None \<Rightarrow> False
      | Some mon \<Rightarrow>
          (let path = path_str h (screenshot_dir cfg) (now_ts h (before @ [Grab mon]) @ ''.png'')
           in tr' = before @ [Grab mon, SavePng path] \<and>
              map_of p ''screenshot'' =
                Some (PStr (''data:image/png;base64,'' @ png_b64 h before mon)) \<and>
              map_of p ''screenshot_path'' = Some (PStr path) \<and>
              map_of p ''cursor'' =
                Some (PDict [(''x'', PInt (fst (position h tr'))),
                             (''y'', PInt (snd (position h tr')))]) \<and>
              map_of p ''display'' =
                Some (PDict [(''width'', PInt (mon_width mon)),
                             (''height'', PInt (mon_height mon))])))"

definition no_screenshot :: "pydict \<Rightarrow> bool" where
  "no_screenshot p = list_all (\<lambda>k. map_of p k = None) screenshot_keys"

text \<open>A tool call whose arguments decode to a request for \<^verbatim>\<open>terminate\<close>.\<close>

definition requests_terminate :: "host \<Rightarrow> tool_call \<Rightarrow> bool" where
  "requests_terminate h tc =
     (case json_loads h (arguments_text tc) of
        Some params \<Rightarrow> action_of params = PStr ''terminate''
      | None \<Rightarrow> False)"

text \<open>All tool calls that the assistant messages of a history carry, in order.\<close>

fun issued_calls :: "message list \<Rightarrow> tool_call list" where
  "issued_calls [] = []"
| "issued_calls (AssistantMsg r # ms) =
     (case tool_calls r of None \<Rightarrow> [] | Some cs \<Rightarrow> cs) @ issued_calls ms"
| "issued_calls (_ # ms) = issued_calls ms"

text \<open>The tool-role message that answers a call, given its content.\<close>

definition tool_msg :: "tool_call \<times> string \<Rightarrow> message" where
  "tool_msg tcc = ToolMsg (call_id (fst tcc)) (fn_name (fst tcc)) (snd tcc)"

section \<open>A concrete host and concrete requests\<close>

text \<open>
  A host to run the program on: a decoder that knows a handful of argument texts and
  rejects every other text, a codec that writes a payload as its status, a model
  that plays a script (one reply per round, then a plain text reply), two monitors,
  and constant answers of the backends.
\<close>

definition demo_json :: "(string \<times> pyval) list" where
  \<open>demo_json =
     [(''{}'', PDict []),
      (''{"action": "left_click"}'', PDict [(''action'', PStr ''left_click'')]),
      (''{"action": "type"}'', PDict [(''action'', PStr ''type'')]),
      (''{"action": "answer", "text": "42"}'',
         PDict [(''action'', PStr ''answer''), (''text'', PStr ''42'')]),
      (''{"action": "terminate", "status": "success"}'',
         PDict [(''action'', PStr ''terminate''), (''status'', PStr ''success'')])]\<close>

definition demo_str :: "pyval \<Rightarrow> string" where
  "demo_str v = (case v of PStr s \<Rightarrow> s | _ \<Rightarrow> ''<object>'')"

definition demo_dumps :: "pyval \<Rightarrow> string" where
  "demo_dumps v = (case v of PDict d \<Rightarrow> demo_str (dict_get d ''status'') | _ \<Rightarrow> ''<json>'')"

definition is_assistant :: "message \<Rightarrow> bool" where
  "is_assistant m = (case m of AssistantMsg r \<Rightarrow> True | _ \<Rightarrow> False)"

definition demo_monitors :: "monitor list" where
  "demo_monitors =
     [\<lparr>mon_left = 0, mon_top = 0, mon_width = 3840, mon_height = 1080\<rparr>,
      \<lparr>mon_left = 0, mon_top = 0, mon_width = 1920, mon_height = 1080\<rparr>]"

definition demo_host :: "reply list \<Rightarrow> host" where
  "demo_host script =
     \<lparr>json_loads = map_of demo_json,
      json_dumps = demo_dumps,
      py_str = demo_str,
      py_repr = (\<lambda>v. [CHR 0x27] @ demo_str v @ [CHR 0x27]),
      int_of_str = (\<lambda>s. None),
      py_float = (\<lambda>v. case v of PInt n \<Rightarrow> Inr (Finite (of_int n))
                           | PFloat f \<Rightarrow> Inr f
                           | _ \<Rightarrow> Inl TypeError),
      create = (\<lambda>msgs. let k = length (filter is_assistant msgs) in
                  if k < length script then Inr [script ! k]
                  else Inr [\<lparr>content = Some ''done'', tool_calls = None\<rparr>]),
      monitors = (\<lambda>tr. demo_monitors),
      png_b64 = (\<lambda>tr mon. ''iVBORw0KGgo=''),
      position = (\<lambda>tr. (100, 200)),
      now_ts = (\<lambda>tr. ''20240101-120000''),
      path_str = (\<lambda>dir name. dir @ ''/'' @ name)\<rparr>"

definition demo_cfg :: tool_cfg where
  "demo_cfg = \<lparr>screenshot_dir = ''screenshots'', monitor_index = 1,
               mouse_move_duration = 0, drag_duration = 3 / 20\<rparr>"

definition demo_call :: "string \<Rightarrow> string \<Rightarrow> tool_call" where
  "demo_call i a = \<lparr>call_id = i, fn_name = ''computer_use'', fn_arguments = Some a\<rparr>"

definition call_click :: tool_call where
  \<open>call_click = demo_call ''call_click'' ''{"action": "left_click"}''\<close>

definition call_type :: tool_call where
  \<open>call_type = demo_call ''call_type'' ''{"action": "type"}''\<close>

definition call_answer :: tool_call where
  \<open>call_answer = demo_call ''call_answer'' ''{"action": "answer", "text": "42"}''\<close>

definition call_terminate :: tool_call where
  \<open>call_terminate = demo_call ''call_terminate'' ''{"action": "terminate", "status": "success"}''\<close>

definition call_malformed :: tool_call where
  \<open>call_malformed = demo_call ''call_malformed'' ''{"action": ''\<close>

definition round_of :: "tool_call list \<Rightarrow> reply" where
  "round_of tcs = \<lparr>content = None, tool_calls = Some tcs\<rparr>"

text \<open>
  The agent state of a run on the task \<^verbatim>\<open>task\<close> after one model reply: the two
  seed messages, the reply, the tool messages so far, and the three other fields.
\<close>

definition state_after ::
  "reply \<Rightarrow> message list \<Rightarrow> pyval \<Rightarrow> pyval \<Rightarrow> event list \<Rightarrow> agent" where
  "state_after msg tool_msgs fa t tr =
     \<lparr>messages = [SystemMsg SYSTEM_PROMPT, UserMsg ''task'', AssistantMsg msg] @ tool_msgs,
      final_answer = fa, terminated = t, trace = tr\<rparr>"

text \<open>The events of a click in place followed by its screenshot on the concrete host.\<close>

definition click_events :: "event list" where
  "click_events =
     [Click None BLeft, Grab (demo_monitors ! 1), SavePng ''screenshots/20240101-120000.png'']"

section \<open>Running the concrete host\<close>

text \<open>The definitions that a run on the concrete host unfolds.\<close>

lemmas demo_eval =
  run_def eval_nat_numeral demo_host_def demo_cfg_def demo_monitors_def demo_json_def
  demo_str_def demo_dumps_def is_assistant_def round_of_def demo_call_def
  call_click_def call_type_def call_answer_def call_terminate_def call_malformed_def
  init_agent_def dispatch_def arguments_text_def call_def handler_of_def handlers_def
  answer_def terminate_def left_click_def click_handler_def type_text_def
  attach_screenshot_def py_index_def dict_get_def dict_get_default_def dict_update_def
  py_or_def as_json_def ok_result_def Let_def
  state_after_def click_events_def

section \<open>Facts about the executor\<close>

lemma call_dict:
  "map_of d ''action'' = Some (PStr a) \<Longrightarrow> map_of handlers a = Some hf \<Longrightarrow>
   call h cfg (PDict d) tr =
     (case hf h cfg d tr of
        (Inl e, tr') \<Rightarrow> (Inl e, tr')
      | (Inr result, tr') \<Rightarrow>
          if a = ''answer'' \<or> a = ''terminate'' then (Inr result, tr')
          else attach_screenshot h cfg result tr')"
  by (simp add: call_def handler_of_def split: prod.splits sum.splits)

lemma call_Inr_dict:
  assumes "call h cfg params tr = (Inr p, tr')"
  obtains d a hf where "params = PDict d" "map_of d ''action'' = Some (PStr a)"
    "map_of handlers a = Some hf"
proof -
  from assms obtain d where d: "params = PDict d"
    by (cases params) (simp_all add: call_def)
  from assms d obtain act where act: "map_of d ''action'' = Some act"
    by (cases "map_of d ''action''") (simp_all add: call_def)
  from assms d act obtain a where a: "act = PStr a"
    by (cases act) (simp_all add: call_def handler_of_def)
  from assms d act a obtain hf where "map_of handlers a = Some hf"
    by (cases "map_of handlers a") (simp_all add: call_def handler_of_def)
  with d act a that show thesis by blast
qed

lemma dict_update4:
  "map_of (dict_update p [(k1, v1), (k2, v2), (k3, v3), (k4, v4)]) =
   (map_of p)(k1 \<mapsto> v1, k2 \<mapsto> v2, k3 \<mapsto> v3, k4 \<mapsto> v4)"
  by (simp add: dict_update_def AList.update_conv')

lemmas screenshot_shape =
  has_screenshot_def is_data_uri_def is_path_def is_int_pair_def dict_get_def

lemma attach_ok:
  "py_index (monitors h tr) (monitor_index cfg) = Some mon \<Longrightarrow>
   \<exists>p path. attach_screenshot h cfg r tr = (Inr p, tr @ [Grab mon, SavePng path]) \<and>
     has_screenshot p \<and> dict_get p ''status'' = dict_get r ''status'' \<and>
     dict_get p ''detail'' = dict_get r ''detail''"
  by (simp add: attach_screenshot_def Let_def dict_update4 screenshot_shape)

lemma attach_Inr:
  "attach_screenshot h cfg r tr = (Inr p, tr') \<Longrightarrow>
   has_screenshot p \<and> dict_get p ''status'' = dict_get r ''status''"
  by (auto simp add: attach_screenshot_def Let_def dict_update4 screenshot_shape
      split: option.splits)

lemma attach_Inr_values:
  "attach_screenshot h cfg r tr = (Inr p, tr') \<Longrightarrow> attached_screenshot h cfg tr' p"
  by (auto simp add: attach_screenshot_def Let_def dict_update4 attached_screenshot_def
      butlast_append split: option.splits)

lemma no_entry_no_screenshot:
  "map_of p ''screenshot'' = None \<Longrightarrow>
   \<not> has_screenshot p \<and> \<not> attached_screenshot h cfg tr' p"
  by (simp add: screenshot_shape attached_screenshot_def Let_def split: option.splits)

lemma ensure_xy_falsy:
  "\<not> truthy c \<Longrightarrow> ensure_xy h c = Inl (ValueError coordinate_required)"
  by (simp add: ensure_xy_def)

lemma ensure_xy_list_len:
  "length xs \<noteq> 2 \<Longrightarrow> ensure_xy h (PList xs) = Inl (ValueError coordinate_required)"
  by (simp add: ensure_xy_def)

lemma click_handler_falsy:
  "\<not> truthy (dict_get d ''coordinate'') \<Longrightarrow>
   click_handler b w h cfg d tr =
     (Inr (ok_result (w @ '' click at current cursor.'')), tr @ [Click None b])"
  by (simp add: click_handler_def)

lemma handlers_lookup:
  "map_of handlers ''mouse_move'' = Some mouse_move"
  "map_of handlers ''left_click'' = Some left_click"
  "map_of handlers ''right_click'' = Some right_click"
  "map_of handlers ''middle_click'' = Some middle_click"
  "map_of handlers ''double_click'' = Some double_click"
  "map_of handlers ''triple_click'' = Some triple_click"
  "map_of handlers ''left_click_drag'' = Some left_click_drag"
  "map_of handlers ''scroll'' = Some scroll"
  "map_of handlers ''hscroll'' = Some hscroll"
  "map_of handlers ''type'' = Some type_text"
  "map_of handlers ''key'' = Some key"
  "map_of handlers ''wait'' = Some wait"
  "map_of handlers ''answer'' = Some answer"
  "map_of handlers ''terminate'' = Some terminate"
  by (simp_all add: handlers_def)

lemma click_in_place:
  assumes abw: "(a, b, w) \<in> {(''left_click'', BLeft, ''Left''), (''right_click'', BRight, ''Right''),
                       (''middle_click'', BMiddle, ''Middle'')}"
    and act: "map_of d ''action'' = Some (PStr a)"
    and falsy: "\<not> truthy (dict_get d ''coordinate'')"
  shows "call h cfg (PDict d) tr =
         attach_screenshot h cfg (ok_result (w @ '' click at current cursor.'')) (tr @ [Click None b])"
proof -
  from abw have hf: "map_of handlers a = Some (click_handler b w)"
    unfolding left_click_def [symmetric] right_click_def [symmetric] middle_click_def [symmetric]
    by (elim insertE emptyE) (simp_all only: prod.inject handlers_lookup
         left_click_def right_click_def middle_click_def)
  from abw have na: "a \<noteq> ''answer''" and nt: "a \<noteq> ''terminate''"
    by (elim insertE emptyE; simp)+
  show ?thesis
    by (simp add: call_dict [OF act hf] click_handler_falsy [OF falsy] na nt)
qed

lemma coordinate_handlers:
  assumes a: "a \<in> {''mouse_move'', ''double_click'', ''triple_click'', ''left_click_drag''}"
    and act: "map_of d ''action'' = Some (PStr a)"
    and exy: "ensure_xy h (dict_get d ''coordinate'') = Inl e"
  shows "call h cfg (PDict d) tr = (Inl e, tr)"
proof -
  from a consider "a = ''mouse_move''" | "a = ''double_click''" | "a = ''triple_click''"
    | "a = ''left_click_drag''" by blast
  then show ?thesis
  proof cases
    case 1
    show ?thesis using act unfolding 1
      by (simp add: call_dict [OF _ handlers_lookup(1)] mouse_move_def exy)
  next
    case 2
    show ?thesis using act unfolding 2
      by (simp add: call_dict [OF _ handlers_lookup(5)] double_click_def exy)
  next
    case 3
    show ?thesis using act unfolding 3
      by (simp add: call_dict [OF _ handlers_lookup(6)] triple_click_def exy)
  next
    case 4
    show ?thesis using act unfolding 4
      by (simp add: call_dict [OF _ handlers_lookup(7)] left_click_drag_def exy)
  qed
qed

lemma handlers_cases:
  assumes "map_of handlers a = Some hf"
  shows "(a = ''mouse_move'' \<and> hf = mouse_move) \<or> (a = ''left_click'' \<and> hf = left_click) \<or>
    (a = ''right_click'' \<and> hf = right_click) \<or> (a = ''middle_click'' \<and> hf = middle_click) \<or>
    (a = ''double_click'' \<and> hf = double_click) \<or> (a = ''triple_click'' \<and> hf = triple_click) \<or>
    (a = ''left_click_drag'' \<and> hf = left_click_drag) \<or> (a = ''scroll'' \<and> hf = scroll) \<or>
    (a = ''hscroll'' \<and> hf = hscroll) \<or> (a = ''type'' \<and> hf = type_text) \<or>
    (a = ''key'' \<and> hf = key) \<or> (a = ''wait'' \<and> hf = wait) \<or>
    (a = ''answer'' \<and> hf = answer) \<or> (a = ''terminate'' \<and> hf = terminate)"
  using assms by (simp add: handlers_def split: if_splits)

lemma ok_result_get:
  "dict_get (ok_result t) ''status'' = PStr ''ok''"
  "dict_get (ok_result t) ''detail'' = PStr t"
  by (simp_all add: ok_result_def dict_get_def)

lemma get_absent: "map_of d k = None \<Longrightarrow> dict_get d k = PNone"
  by (simp add: dict_get_def)

lemma get_present: "map_of d k = Some v \<Longrightarrow> dict_get d k = v"
  by (simp add: dict_get_def)

lemma call_handler_error:
  assumes "map_of d ''action'' = Some (PStr a)" and "map_of handlers a = Some hf"
    and "hf h cfg d tr = (Inl e, tr')"
  shows "call h cfg (PDict d) tr = (Inl e, tr')"
  by (simp add: call_dict [OF assms(1) assms(2)] assms(3))

lemma call_handler_ok:
  assumes "map_of d ''action'' = Some (PStr a)" and "map_of handlers a = Some hf"
    and "hf h cfg d tr = (Inr r, tr')" and "a \<noteq> ''answer''" and "a \<noteq> ''terminate''"
  shows "call h cfg (PDict d) tr = attach_screenshot h cfg r tr'"
  by (simp add: call_dict [OF assms(1) assms(2)] assms(3) assms(4) assms(5))

lemma answer_result:
  "answer h cfg d tr = (Inr r, tr') \<Longrightarrow>
   r = [(''status'', PStr ''answer''), (''text'', py_or (dict_get d ''text'') (PStr []))] \<and> tr' = tr"
  by (auto simp add: answer_def Let_def)

lemma terminate_result:
  "terminate h cfg d tr = (Inr r, tr') \<Longrightarrow>
   r = [(''status'', PStr ''terminate''), (''result'', dict_get d ''status'')] \<and> tr' = tr \<and>
   (dict_get d ''status'' = PStr ''success'' \<or> dict_get d ''status'' = PStr ''failure'')"
  by (auto simp add: terminate_def Let_def split: if_splits)

lemma action_of_dict:
  "map_of d ''action'' = Some v \<Longrightarrow> action_of (PDict d) = v"
  by (simp add: action_of_def dict_get_def)

section \<open>Claims about the executor\<close>

text \<open>
  Claim C10. For each action that must have a coordinate (\<^verbatim>\<open>mouse_move\<close>,
  \<^verbatim>\<open>double_click\<close>, \<^verbatim>\<open>triple_click\<close>, \<^verbatim>\<open>left_click_drag\<close>), a coordinate
  list whose length is not exactly 2 (shorter or longer) makes the call fail with the
  ValueError of \<^verbatim>\<open>_ensure_xy\<close>, before any input event is issued.
\<close>

theorem coordinate_wrong_length:
  assumes "a \<in> {''mouse_move'', ''double_click'', ''triple_click'', ''left_click_drag''}"
    and "map_of d ''action'' = Some (PStr a)"
    and "map_of d ''coordinate'' = Some (PList xs)"
    and "length xs \<noteq> 2"
  shows "call h cfg (PDict d) tr =
         (Inl (ValueError ''coordinate=[x, y] is required for this action.''), tr)"
proof -
  have "ensure_xy h (dict_get d ''coordinate'') = Inl (ValueError coordinate_required)"
    by (simp add: get_present [OF assms(3)] ensure_xy_list_len [OF assms(4)])
  from coordinate_handlers [OF assms(1) assms(2) this]
  show ?thesis by (simp add: coordinate_required_def)
qed

text \<open>A three-element coordinate for \<^verbatim>\<open>double_click\<close> on the concrete host.\<close>

theorem coordinate_wrong_length_witness:
  "call (demo_host []) demo_cfg
     (PDict [(''action'', PStr ''double_click''),
             (''coordinate'', PList [PInt 10, PInt 20, PInt 30])]) [] =
   (Inl (ValueError ''coordinate=[x, y] is required for this action.''), [])"
  using coordinate_wrong_length [of "''double_click''"
      "[(''action'', PStr ''double_click''), (''coordinate'', PList [PInt 10, PInt 20, PInt 30])]"
      "[PInt 10, PInt 20, PInt 30]" "demo_host []" demo_cfg "[]"]
  by simp

text \<open>
  Claim C9. For \<^verbatim>\<open>left_click\<close>, \<^verbatim>\<open>right_click\<close> and \<^verbatim>\<open>middle_click\<close>, a
  request whose coordinate is the empty list behaves exactly as the same request
  without a coordinate: the backend is asked to click where the cursor is, and (the
  configured monitor existing) the result has status \<^verbatim>\<open>ok\<close> and a screenshot;
  no ValueError is raised. The handler itself returns its \<^verbatim>\<open>ok\<close> result whatever
  the monitors are.
\<close>

theorem click_empty_coordinate:
  assumes "(a, b, w) \<in> {(''left_click'', BLeft, ''Left''), (''right_click'', BRight, ''Right''),
                       (''middle_click'', BMiddle, ''Middle'')}"
    and "map_of d ''action'' = Some (PStr a)"
    and "map_of d ''coordinate'' = Some (PList [])"
    and "map_of d' ''action'' = Some (PStr a)"
    and "map_of d' ''coordinate'' = None"
    and "py_index (monitors h (tr @ [Click None b])) (monitor_index cfg) = Some mon"
  shows "click_handler b w h cfg d tr =
           (Inr (ok_result (w @ '' click at current cursor.'')), tr @ [Click None b]) \<and>
         call h cfg (PDict d) tr = call h cfg (PDict d') tr \<and>
         (\<exists>p path. call h cfg (PDict d) tr = (Inr p, tr @ [Click None b, Grab mon, SavePng path]) \<and>
            has_screenshot p \<and>
            dict_get p ''status'' = PStr ''ok'' \<and>
            dict_get p ''detail'' = PStr (w @ '' click at current cursor.''))"
proof -
  have f: "\<not> truthy (dict_get d ''coordinate'')"
    by (simp add: get_present [OF assms(3)])
  have f': "\<not> truthy (dict_get d' ''coordinate'')"
    by (simp add: get_absent [OF assms(5)])
  note c = click_in_place [OF assms(1) assms(2) f, of h cfg tr]
  note c' = click_in_place [OF assms(1) assms(4) f', of h cfg tr]
  from attach_ok [OF assms(6), of "ok_result (w @ '' click at current cursor.'')"]
  show ?thesis by (simp add: c c' ok_result_get click_handler_falsy [OF f])
qed

text \<open>A right click with an empty coordinate list on the concrete host.\<close>

theorem click_empty_coordinate_witness:
  "click_handler BRight ''Right'' (demo_host []) demo_cfg
     [(''action'', PStr ''right_click''), (''coordinate'', PList [])] [] =
     (Inr (ok_result ''Right click at current cursor.''), [Click None BRight]) \<and>
   call (demo_host []) demo_cfg
     (PDict [(''action'', PStr ''right_click''), (''coordinate'', PList [])]) [] =
   call (demo_host []) demo_cfg (PDict [(''action'', PStr ''right_click'')]) [] \<and>
   (\<exists>p path. call (demo_host []) demo_cfg
        (PDict [(''action'', PStr ''right_click''), (''coordinate'', PList [])]) [] =
        (Inr p, [Click None BRight, Grab (demo_monitors ! 1), SavePng path]) \<and>
      has_screenshot p \<and> dict_get p ''status'' = PStr ''ok'' \<and>
      dict_get p ''detail'' = PStr ''Right click at current cursor.'')"
proof -
  let ?d = "[(''action'', PStr ''right_click''), (''coordinate'', PList [])]"
  let ?d' = "[(''action'', PStr ''right_click'')]"
  have 1: "(''right_click'', BRight, ''Right'') \<in>
      {(''left_click'', BLeft, ''Left''), (''right_click'', BRight, ''Right''),
       (''middle_click'', BMiddle, ''Middle'')}" by simp
  have 2: "map_of ?d ''action'' = Some (PStr ''right_click'')" by simp
  have 3: "map_of ?d ''coordinate'' = Some (PList [])" by simp
  have 4: "map_of ?d' ''action'' = Some (PStr ''right_click'')" by simp
  have 5: "map_of ?d' ''coordinate'' = None" by simp
  have 6: "py_index (monitors (demo_host []) ([] @ [Click None BRight])) (monitor_index demo_cfg) =
           Some (demo_monitors ! 1)"
    by (simp add: demo_host_def demo_cfg_def demo_monitors_def py_index_def)
  show ?thesis
    by (rule click_empty_coordinate [OF 1 2 3 4 5 6, unfolded append.simps])
qed

text \<open>
  Claim C1 says that \<^verbatim>\<open>mouse_move\<close>, like the three single clicks, may come without
  a coordinate and then acts at the cursor. The code does not do that for
  \<^verbatim>\<open>mouse_move\<close>: \<^verbatim>\<open>_mouse_move\<close> passes the coordinate to \<^verbatim>\<open>_ensure_xy\<close>
  unconditionally, as the handlers of the coordinate-requiring actions do. On the
  concrete host, a \<^verbatim>\<open>mouse_move\<close> request without a coordinate raises the ValueError
  and issues no event.
\<close>

theorem mouse_move_without_coordinate:
  "call (demo_host []) demo_cfg (PDict [(''action'', PStr ''mouse_move'')]) [] =
   (Inl (ValueError ''coordinate=[x, y] is required for this action.''), [])"
proof -
  have "ensure_xy (demo_host []) (dict_get [(''action'', PStr ''mouse_move'')] ''coordinate'') =
        Inl (ValueError coordinate_required)"
    by (simp add: dict_get_def ensure_xy_falsy)
  then have "mouse_move (demo_host []) demo_cfg [(''action'', PStr ''mouse_move'')] [] =
        (Inl (ValueError coordinate_required), [])"
    by (simp add: mouse_move_def)
  from call_handler_error [OF _ handlers_lookup(1) this]
  show ?thesis by (simp add: coordinate_required_def)
qed

text \<open>
  Claim C1, as the code has it. For \<^verbatim>\<open>left_click\<close>, \<^verbatim>\<open>right_click\<close> and
  \<^verbatim>\<open>middle_click\<close> a request without a coordinate makes the backend click where
  the cursor is and (the configured monitor existing) returns a result with status
  \<^verbatim>\<open>ok\<close> and a screenshot, with no error raised. For \<^verbatim>\<open>mouse_move\<close> a request
  without a coordinate fails with the ValueError of \<^verbatim>\<open>_ensure_xy\<close>.
\<close>

theorem coordinate_absent:
  assumes "(a, b, w) \<in> {(''left_click'', BLeft, ''Left''), (''right_click'', BRight, ''Right''),
                       (''middle_click'', BMiddle, ''Middle'')}"
    and "map_of d ''action'' = Some (PStr a)"
    and "map_of d ''coordinate'' = None"
    and "py_index (monitors h (tr @ [Click None b])) (monitor_index cfg) = Some mon"
    and "map_of dm ''action'' = Some (PStr ''mouse_move'')"
    and "map_of dm ''coordinate'' = None"
  shows "click_handler b w h cfg d tr =
           (Inr (ok_result (w @ '' click at current cursor.'')), tr @ [Click None b]) \<and>
         (\<exists>p path. call h cfg (PDict d) tr = (Inr p, tr @ [Click None b, Grab mon, SavePng path]) \<and>
            has_screenshot p \<and>
            dict_get p ''status'' = PStr ''ok'' \<and>
            dict_get p ''detail'' = PStr (w @ '' click at current cursor.'')) \<and>
         call h cfg (PDict dm) tr =
           (Inl (ValueError ''coordinate=[x, y] is required for this action.''), tr)"
proof -
  have f: "\<not> truthy (dict_get d ''coordinate'')"
    by (simp add: get_absent [OF assms(3)])
  note c = click_in_place [OF assms(1) assms(2) f, of h cfg tr]
  have "ensure_xy h (dict_get dm ''coordinate'') = Inl (ValueError coordinate_required)"
    by (simp add: get_absent [OF assms(6)] ensure_xy_falsy)
  then have "mouse_move h cfg dm tr = (Inl (ValueError coordinate_required), tr)"
    by (simp add: mouse_move_def)
  note m = call_handler_error [OF assms(5) handlers_lookup(1) this]
  from attach_ok [OF assms(4), of "ok_result (w @ '' click at current cursor.'')"]
  show ?thesis
    by (simp add: c m ok_result_get coordinate_required_def click_handler_falsy [OF f])
qed

text \<open>A left click and a mouse move, both without a coordinate, on the concrete host.\<close>

theorem coordinate_absent_witness:
  "click_handler BLeft ''Left'' (demo_host []) demo_cfg [(''action'', PStr ''left_click'')] [] =
     (Inr (ok_result ''Left click at current cursor.''), [Click None BLeft]) \<and>
   (\<exists>p path. call (demo_host []) demo_cfg (PDict [(''action'', PStr ''left_click'')]) [] =
        (Inr p, [Click None BLeft, Grab (demo_monitors ! 1), SavePng path]) \<and>
      has_screenshot p \<and> dict_get p ''status'' = PStr ''ok'' \<and>
      dict_get p ''detail'' = PStr ''Left click at current cursor.'') \<and>
   call (demo_host []) demo_cfg (PDict [(''action'', PStr ''mouse_move'')]) [] =
     (Inl (ValueError ''coordinate=[x, y] is required for this action.''), [])"
proof -
  let ?d = "[(''action'', PStr ''left_click'')]"
  let ?dm = "[(''action'', PStr ''mouse_move'')]"
  have 1: "(''left_click'', BLeft, ''Left'') \<in>
      {(''left_click'', BLeft, ''Left''), (''right_click'', BRight, ''Right''),
       (''middle_click'', BMiddle, ''Middle'')}" by simp
  have 2: "map_of ?d ''action'' = Some (PStr ''left_click'')" by simp
  have 3: "map_of ?d ''coordinate'' = None" by simp
  have 4: "py_index (monitors (demo_host []) ([] @ [Click None BLeft])) (monitor_index demo_cfg) =
           Some (demo_monitors ! 1)"
    by (simp add: demo_host_def demo_cfg_def demo_monitors_def py_index_def)
  have 5: "map_of ?dm ''action'' = Some (PStr ''mouse_move'')" by simp
  have 6: "map_of ?dm ''coordinate'' = None" by simp
  show ?thesis
    by (rule coordinate_absent [OF 1 2 3 4 5 6, unfolded append.simps])
qed

text \<open>
  Claim C8. For \<^verbatim>\<open>type\<close>, a request without a text fails with a ValueError and
  types nothing; a request whose text is a string, the empty string included, hands
  that string to the backend and (the configured monitor existing) returns a result
  with status \<^verbatim>\<open>ok\<close>. Only the absence of the text is refused.
\<close>

theorem type_text_required:
  assumes "map_of d ''action'' = Some (PStr ''type'')"
    and "map_of d ''text'' = None"
    and "map_of d' ''action'' = Some (PStr ''type'')"
    and "map_of d' ''text'' = Some (PStr s)"
    and "py_index (monitors h (tr @ [Typewrite (PStr s) (1 / 100)])) (monitor_index cfg) = Some mon"
  shows "call h cfg (PDict d) tr = (Inl (ValueError ''text is required for action=type.''), tr) \<and>
         type_text h cfg d' tr =
           (Inr (ok_result (''Typed '' @ [CHR 0x22] @ py_str h (PStr (take 50 s)) @ [CHR 0x22] @ ''.'')),
            tr @ [Typewrite (PStr s) (1 / 100)]) \<and>
         (\<exists>p path. call h cfg (PDict d') tr =
              (Inr p, tr @ [Typewrite (PStr s) (1 / 100), Grab mon, SavePng path]) \<and>
            has_screenshot p \<and> dict_get p ''status'' = PStr ''ok'')"
proof -
  have "type_text h cfg d tr = (Inl (ValueError ''text is required for action=type.''), tr)"
    by (simp add: type_text_def get_absent [OF assms(2)])
  note e = call_handler_error [OF assms(1) handlers_lookup(10) this]
  let ?t = "''Typed '' @ [CHR 0x22] @ py_str h (PStr (take 50 s)) @ [CHR 0x22] @ ''.''"
  have t: "type_text h cfg d' tr = (Inr (ok_result ?t), tr @ [Typewrite (PStr s) (1 / 100)])"
    by (simp add: type_text_def Let_def get_present [OF assms(4)])
  note k = call_handler_ok [OF assms(3) handlers_lookup(10) t]
  from attach_ok [OF assms(5), of "ok_result ?t"]
  show ?thesis by (auto simp add: e k t ok_result_get)
qed

text \<open>A request without a text and one with the empty text, on the concrete host.\<close>

theorem type_text_required_witness:
  "call (demo_host []) demo_cfg (PDict [(''action'', PStr ''type'')]) [] =
     (Inl (ValueError ''text is required for action=type.''), []) \<and>
   type_text (demo_host []) demo_cfg [(''action'', PStr ''type''), (''text'', PStr [])] [] =
     (Inr (ok_result (''Typed '' @ [CHR 0x22] @ py_str (demo_host []) (PStr (take 50 [])) @
                     [CHR 0x22] @ ''.'')),
      [Typewrite (PStr []) (1 / 100)]) \<and>
   (\<exists>p path. call (demo_host []) demo_cfg
        (PDict [(''action'', PStr ''type''), (''text'', PStr [])]) [] =
        (Inr p, [Typewrite (PStr []) (1 / 100), Grab (demo_monitors ! 1), SavePng path]) \<and>
      has_screenshot p \<and> dict_get p ''status'' = PStr ''ok'')"
proof -
  let ?d = "[(''action'', PStr ''type'')]"
  let ?d' = "[(''action'', PStr ''type''), (''text'', PStr [])]"
  have 1: "map_of ?d ''action'' = Some (PStr ''type'')" by simp
  have 2: "map_of ?d ''text'' = None" by simp
  have 3: "map_of ?d' ''action'' = Some (PStr ''type'')" by simp
  have 4: "map_of ?d' ''text'' = Some (PStr [])" by simp
  have 5: "py_index (monitors (demo_host []) ([] @ [Typewrite (PStr []) (1 / 100)]))
             (monitor_index demo_cfg) = Some (demo_monitors ! 1)"
    by (simp add: demo_host_def demo_cfg_def demo_monitors_def py_index_def)
  show ?thesis
    by (rule type_text_required [OF 1 2 3 4 5, unfolded append_Nil])
qed

text \<open>
  Claim C7. For \<^verbatim>\<open>key\<close>, an empty list of keys fails with a ValueError and issues
  no event. For a non-empty list the handler issues one key-down per key in the order
  of the request and then one key-up per key in the reverse order, and nothing else;
  the call then (the configured monitor existing) returns a result with status
  \<^verbatim>\<open>ok\<close>. For \<^verbatim>\<open>["ctrl", "c"]\<close> the events are down ctrl, down c, up c, up ctrl.
\<close>

theorem key_chord:
  assumes "map_of d ''action'' = Some (PStr ''key'')"
    and "map_of d ''keys'' = Some (PList [])"
    and "map_of d' ''action'' = Some (PStr ''key'')"
    and "map_of d' ''keys'' = Some (PList ks)"
    and "ks \<noteq> []"
    and "py_index (monitors h (tr @ map KeyDown ks @ map KeyUp (rev ks))) (monitor_index cfg) =
         Some mon"
  shows "call h cfg (PDict d) tr = (Inl (ValueError ''keys is required for action=key.''), tr) \<and>
         fst (key h cfg d' tr) = Inr (ok_result (''Pressed keys '' @ py_str h (PList ks) @ ''.'')) \<and>
         snd (key h cfg d' tr) = tr @ map KeyDown ks @ map KeyUp (rev ks) \<and>
         (\<exists>p path. call h cfg (PDict d') tr =
              (Inr p, tr @ map KeyDown ks @ map KeyUp (rev ks) @ [Grab mon, SavePng path]) \<and>
            has_screenshot p \<and> dict_get p ''status'' = PStr ''ok'')"
proof -
  have "key h cfg d tr = (Inl (ValueError ''keys is required for action=key.''), tr)"
    by (simp add: key_def Let_def py_or_def get_present [OF assms(2)])
  note e = call_handler_error [OF assms(1) handlers_lookup(11) this]
  have k: "key h cfg d' tr =
        (Inr (ok_result (''Pressed keys '' @ py_str h (PList ks) @ ''.'')),
         tr @ map KeyDown ks @ map KeyUp (rev ks))"
    using assms(5) by (simp add: key_def Let_def py_or_def get_present [OF assms(4)])
  note c = call_handler_ok [OF assms(3) handlers_lookup(11) k]
  from attach_ok [OF assms(6),
      of "ok_result (''Pressed keys '' @ py_str h (PList ks) @ ''.'')"]
  show ?thesis by (auto simp add: e k c ok_result_get)
qed

text \<open>The empty list and the chord \<^verbatim>\<open>["ctrl", "c"]\<close> on the concrete host.\<close>

theorem key_chord_witness:
  "call (demo_host []) demo_cfg (PDict [(''action'', PStr ''key''), (''keys'', PList [])]) [] =
     (Inl (ValueError ''keys is required for action=key.''), []) \<and>
   snd (key (demo_host []) demo_cfg
          [(''action'', PStr ''key''), (''keys'', PList [PStr ''ctrl'', PStr ''c''])] []) =
     [KeyDown (PStr ''ctrl''), KeyDown (PStr ''c''), KeyUp (PStr ''c''), KeyUp (PStr ''ctrl'')] \<and>
   (\<exists>p path. call (demo_host []) demo_cfg
        (PDict [(''action'', PStr ''key''), (''keys'', PList [PStr ''ctrl'', PStr ''c''])]) [] =
        (Inr p, [KeyDown (PStr ''ctrl''), KeyDown (PStr ''c''), KeyUp (PStr ''c''),
                 KeyUp (PStr ''ctrl''), Grab (demo_monitors ! 1), SavePng path]) \<and>
      has_screenshot p \<and> dict_get p ''status'' = PStr ''ok'')"
proof -
  let ?d = "[(''action'', PStr ''key''), (''keys'', PList [])]"
  let ?ks = "[PStr ''ctrl'', PStr ''c'']"
  let ?d' = "[(''action'', PStr ''key''), (''keys'', PList ?ks)]"
  have 1: "map_of ?d ''action'' = Some (PStr ''key'')" by simp
  have 2: "map_of ?d ''keys'' = Some (PList [])" by simp
  have 3: "map_of ?d' ''action'' = Some (PStr ''key'')" by simp
  have 4: "map_of ?d' ''keys'' = Some (PList ?ks)" by simp
  have 5: "?ks \<noteq> []" by simp
  have 6: "py_index (monitors (demo_host []) ([] @ map KeyDown ?ks @ map KeyUp (rev ?ks)))
             (monitor_index demo_cfg) = Some (demo_monitors ! 1)"
    by (simp add: demo_host_def demo_cfg_def demo_monitors_def py_index_def)
  show ?thesis
    using key_chord [OF 1 2 3 4 5 6] by simp
qed

text \<open>
  Claim C6. Whenever the executor returns a result for a request whose action is
  neither \<^verbatim>\<open>answer\<close> nor \<^verbatim>\<open>terminate\<close>, the result carries the screenshot taken
  after the action: the encoded image of the configured monitor as a PNG data URI,
  the path of the file that was saved, the cursor position read after the action, and
  the width and height of that monitor. The result of \<^verbatim>\<open>answer\<close> and of
  \<^verbatim>\<open>terminate\<close> has none of the four entries. So a result has a screenshot if and
  only if its action is not one of these two.
\<close>

theorem screenshot_iff_physical:
  assumes "call h cfg params tr = (Inr p, tr')"
  shows "(attached_screenshot h cfg tr' p \<longleftrightarrow>
            action_of params \<noteq> PStr ''answer'' \<and> action_of params \<noteq> PStr ''terminate'') \<and>
         (has_screenshot p \<longleftrightarrow>
            action_of params \<noteq> PStr ''answer'' \<and> action_of params \<noteq> PStr ''terminate'') \<and>
         (no_screenshot p \<longleftrightarrow>
            action_of params = PStr ''answer'' \<or> action_of params = PStr ''terminate'')"
proof -
  from assms obtain d a hf where d: "params = PDict d"
    and act: "map_of d ''action'' = Some (PStr a)" and hf: "map_of handlers a = Some hf"
    by (rule call_Inr_dict)
  have ao: "action_of params = PStr a"
    by (simp add: d action_of_dict [OF act])
  note c = call_dict [OF act hf, of h cfg tr]
  show ?thesis
  proof (cases "a = ''answer'' \<or> a = ''terminate''")
    case True
    from assms c True have r: "hf h cfg d tr = (Inr p, tr')"
      by (auto simp add: d split: prod.splits sum.splits)
    have "no_screenshot p"
      using True
    proof
      assume a: "a = ''answer''"
      with hf have "hf = answer" by (simp add: handlers_lookup)
      with r have "p = [(''status'', PStr ''answer''), (''text'', py_or (dict_get d ''text'') (PStr []))]"
        by (simp add: answer_result)
      then show ?thesis by (simp add: no_screenshot_def screenshot_keys_def)
    next
      assume a: "a = ''terminate''"
      with hf have "hf = terminate" by (simp add: handlers_lookup)
      with r have "p = [(''status'', PStr ''terminate''), (''result'', dict_get d ''status'')]"
        by (simp add: terminate_result)
      then show ?thesis by (simp add: no_screenshot_def screenshot_keys_def)
    qed
    moreover from this have "map_of p ''screenshot'' = None"
      by (simp add: no_screenshot_def screenshot_keys_def)
    then have "\<not> has_screenshot p \<and> \<not> attached_screenshot h cfg tr' p"
      by (rule no_entry_no_screenshot)
    ultimately show ?thesis using True by (auto simp add: ao)
  next
    case False
    from assms c False obtain r tr1 where at: "attach_screenshot h cfg r tr1 = (Inr p, tr')"
      by (auto simp add: d split: prod.splits sum.splits)
    from at have v: "attached_screenshot h cfg tr' p" by (rule attach_Inr_values)
    from at have hs: "has_screenshot p" by (simp add: attach_Inr)
    from v have "map_of p ''screenshot'' \<noteq> None"
      by (simp add: attached_screenshot_def Let_def split: option.splits)
    then have "\<not> no_screenshot p"
      by (simp add: no_screenshot_def screenshot_keys_def)
    with v hs False show ?thesis by (simp add: ao)
  qed
qed

text \<open>
  An \<^verbatim>\<open>answer\<close> request and a click in place on the concrete host: the first call
  returns a result without any of the four entries; the second returns the result
  with the capture of the second monitor, the saved file, the cursor at (100, 200)
  and the geometry 1920 by 1080.
\<close>

theorem screenshot_iff_physical_witness:
  "call (demo_host []) demo_cfg (PDict [(''action'', PStr ''answer''), (''text'', PStr ''42'')]) [] =
     (Inr [(''status'', PStr ''answer''), (''text'', PStr ''42'')], []) \<and>
   \<not> attached_screenshot (demo_host []) demo_cfg []
        [(''status'', PStr ''answer''), (''text'', PStr ''42'')] \<and>
   \<not> has_screenshot [(''status'', PStr ''answer''), (''text'', PStr ''42'')] \<and>
   no_screenshot [(''status'', PStr ''answer''), (''text'', PStr ''42'')] \<and>
   call (demo_host []) demo_cfg (PDict [(''action'', PStr ''left_click'')]) [] =
     (Inr [(''status'', PStr ''ok''), (''detail'', PStr ''Left click at current cursor.''),
           (''screenshot'', PStr ''data:image/png;base64,iVBORw0KGgo=''),
           (''screenshot_path'', PStr ''screenshots/20240101-120000.png''),
           (''cursor'', PDict [(''x'', PInt 100), (''y'', PInt 200)]),
           (''display'', PDict [(''width'', PInt 1920), (''height'', PInt 1080)])],
      click_events) \<and>
   attached_screenshot (demo_host []) demo_cfg click_events
     [(''status'', PStr ''ok''), (''detail'', PStr ''Left click at current cursor.''),
      (''screenshot'', PStr ''data:image/png;base64,iVBORw0KGgo=''),
      (''screenshot_path'', PStr ''screenshots/20240101-120000.png''),
      (''cursor'', PDict [(''x'', PInt 100), (''y'', PInt 200)]),
      (''display'', PDict [(''width'', PInt 1920), (''height'', PInt 1080)])] \<and>
   has_screenshot
     [(''status'', PStr ''ok''), (''detail'', PStr ''Left click at current cursor.''),
      (''screenshot'', PStr ''data:image/png;base64,iVBORw0KGgo=''),
      (''screenshot_path'', PStr ''screenshots/20240101-120000.png''),
      (''cursor'', PDict [(''x'', PInt 100), (''y'', PInt 200)]),
      (''display'', PDict [(''width'', PInt 1920), (''height'', PInt 1080)])] \<and>
   \<not> no_screenshot
     [(''status'', PStr ''ok''), (''detail'', PStr ''Left click at current cursor.''),
      (''screenshot'', PStr ''data:image/png;base64,iVBORw0KGgo=''),
      (''screenshot_path'', PStr ''screenshots/20240101-120000.png''),
      (''cursor'', PDict [(''x'', PInt 100), (''y'', PInt 200)]),
      (''display'', PDict [(''width'', PInt 1920), (''height'', PInt 1080)])]"
proof -
  have 1: "call (demo_host []) demo_cfg
             (PDict [(''action'', PStr ''answer''), (''text'', PStr ''42'')]) [] =
           (Inr [(''status'', PStr ''answer''), (''text'', PStr ''42'')], [])"
    by (simp add: demo_eval)
  have 2: "call (demo_host []) demo_cfg (PDict [(''action'', PStr ''left_click'')]) [] =
           (Inr [(''status'', PStr ''ok''), (''detail'', PStr ''Left click at current cursor.''),
                 (''screenshot'', PStr ''data:image/png;base64,iVBORw0KGgo=''),
                 (''screenshot_path'', PStr ''screenshots/20240101-120000.png''),
                 (''cursor'', PDict [(''x'', PInt 100), (''y'', PInt 200)]),
                 (''display'', PDict [(''width'', PInt 1920), (''height'', PInt 1080)])],
            click_events)"
    by (simp add: demo_eval)
  have a1: "action_of (PDict [(''action'', PStr ''answer''), (''text'', PStr ''42'')]) =
            PStr ''answer''"
    by (simp add: action_of_def dict_get_def)
  have a2: "action_of (PDict [(''action'', PStr ''left_click'')]) = PStr ''left_click''"
    by (simp add: action_of_def dict_get_def)
  note t1 = screenshot_iff_physical [OF 1, unfolded a1]
  note t2 = screenshot_iff_physical [OF 2, unfolded a2]
  from 1 2 t1 t2 show ?thesis by simp
qed

section \<open>Facts about the conversation loop\<close>

lemma ensure_handlers_ok:
  "mouse_move h cfg d tr = (Inr r, tr') \<Longrightarrow> \<exists>t. r = ok_result t"
  "double_click h cfg d tr = (Inr r, tr') \<Longrightarrow> \<exists>t. r = ok_result t"
  "triple_click h cfg d tr = (Inr r, tr') \<Longrightarrow> \<exists>t. r = ok_result t"
  "left_click_drag h cfg d tr = (Inr r, tr') \<Longrightarrow> \<exists>t. r = ok_result t"
  by (auto simp add: mouse_move_def double_click_def triple_click_def left_click_drag_def
      split: sum.splits prod.splits)

lemma click_handler_ok:
  "click_handler b w h cfg d tr = (Inr r, tr') \<Longrightarrow> \<exists>t. r = ok_result t"
  by (auto simp add: click_handler_def Let_def split: sum.splits prod.splits if_splits)

lemma scroll_handlers_ok:
  "scroll h cfg d tr = (Inr r, tr') \<Longrightarrow> \<exists>t. r = ok_result t"
  "hscroll h cfg d tr = (Inr r, tr') \<Longrightarrow> \<exists>t. r = ok_result t"
  by (auto simp add: scroll_def hscroll_def split: sum.splits)

lemma type_text_ok:
  "type_text h cfg d tr = (Inr r, tr') \<Longrightarrow> \<exists>t. r = ok_result t"
  by (auto simp add: type_text_def Let_def split: sum.splits if_splits)

lemma key_ok:
  "key h cfg d tr = (Inr r, tr') \<Longrightarrow> \<exists>t. r = ok_result t"
  by (auto simp add: key_def Let_def split: sum.splits if_splits)

lemma wait_ok:
  "wait h cfg d tr = (Inr r, tr') \<Longrightarrow> \<exists>t. r = ok_result t"
  by (auto simp add: wait_def Let_def split: sum.splits if_splits pyfloat.splits)

lemma ok_handlers:
  assumes "map_of handlers a = Some hf" and "a \<noteq> ''answer''" and "a \<noteq> ''terminate''"
    and "hf h cfg d tr = (Inr r, tr')"
  shows "\<exists>t. r = ok_result t"
  using handlers_cases [OF assms(1)] assms(2) assms(3) assms(4)
  by (elim disjE conjE)
     (simp_all add: ensure_handlers_ok click_handler_ok scroll_handlers_ok type_text_ok key_ok
        wait_ok left_click_def right_click_def middle_click_def)

lemma call_status:
  assumes "call h cfg params tr = (Inr p, tr')"
  shows "dict_get p ''status'' =
           (if action_of params = PStr ''terminate'' then PStr ''terminate''
            else if action_of params = PStr ''answer'' then PStr ''answer'' else PStr ''ok'')"
    and "action_of params = PStr ''terminate'' \<Longrightarrow>
           dict_get p ''result'' = PStr ''success'' \<or> dict_get p ''result'' = PStr ''failure''"
proof -
  from assms obtain d a hf where d: "params = PDict d"
    and act: "map_of d ''action'' = Some (PStr a)" and hf: "map_of handlers a = Some hf"
    by (rule call_Inr_dict)
  have ao: "action_of params = PStr a"
    by (simp add: d action_of_dict [OF act])
  note c = call_dict [OF act hf, of h cfg tr]
  have "dict_get p ''status'' =
           (if action_of params = PStr ''terminate'' then PStr ''terminate''
            else if action_of params = PStr ''answer'' then PStr ''answer'' else PStr ''ok'') \<and>
        (action_of params = PStr ''terminate'' \<longrightarrow>
           dict_get p ''result'' = PStr ''success'' \<or> dict_get p ''result'' = PStr ''failure'')"
  proof (cases "a = ''answer'' \<or> a = ''terminate''")
    case True
    from assms c True have r: "hf h cfg d tr = (Inr p, tr')"
      by (auto simp add: d split: prod.splits sum.splits)
    from True show ?thesis
    proof
      assume a: "a = ''answer''"
      with hf have "hf = answer" by (simp add: handlers_lookup)
      with r have "p = [(''status'', PStr ''answer''), (''text'', py_or (dict_get d ''text'') (PStr []))]"
        by (simp add: answer_result)
      then show ?thesis by (simp add: ao a dict_get_def)
    next
      assume a: "a = ''terminate''"
      with hf have "hf = terminate" by (simp add: handlers_lookup)
      with r have "p = [(''status'', PStr ''terminate''), (''result'', dict_get d ''status'')]"
        and "dict_get d ''status'' = PStr ''success'' \<or> dict_get d ''status'' = PStr ''failure''"
        by (simp_all add: terminate_result)
      then show ?thesis by (auto simp add: ao a dict_get_def)
    qed
  next
    case False
    from assms c False obtain r tr1 where r: "hf h cfg d tr = (Inr r, tr1)"
      and at: "attach_screenshot h cfg r tr1 = (Inr p, tr')"
      by (auto simp add: d split: prod.splits sum.splits)
    from False have "a \<noteq> ''answer''" and "a \<noteq> ''terminate''" by simp_all
    from ok_handlers [OF hf this r] obtain t where "r = ok_result t" ..
    with attach_Inr [OF at] have "dict_get p ''status'' = PStr ''ok''"
      by (simp add: ok_result_get)
    with False show ?thesis by (simp add: ao)
  qed
  then show "dict_get p ''status'' =
           (if action_of params = PStr ''terminate'' then PStr ''terminate''
            else if action_of params = PStr ''answer'' then PStr ''answer'' else PStr ''ok'')"
    and "action_of params = PStr ''terminate'' \<Longrightarrow>
           dict_get p ''result'' = PStr ''success'' \<or> dict_get p ''result'' = PStr ''failure''"
    by simp_all
qed

lemma dispatch_None:
  assumes "dispatch h cfg tc s = (None, s')"
  obtains args p tr where "json_loads h (arguments_text tc) = Some args"
    and "call h cfg args (trace s) = (Inr p, tr)"
    and "messages s' = messages s @ [ToolMsg (call_id tc) (fn_name tc) (as_json h p)]"
    and "terminated s' =
           (if dict_get p ''status'' = PStr ''terminate'' then dict_get p ''result''
            else terminated s)"
    and "final_answer s' =
           (if dict_get p ''status'' = PStr ''answer'' then dict_get_default p ''text'' (PStr [])
            else final_answer s)"
  using assms
  by (auto simp add: dispatch_def Let_def split: option.splits prod.splits sum.splits if_splits)

lemma dispatch_Some:
  assumes "dispatch h cfg tc s = (Some e, s')"
  shows "messages s' = messages s \<and> terminated s' = terminated s \<and>
         final_answer s' = final_answer s"
  using assms
  by (auto simp add: dispatch_def Let_def split: option.splits prod.splits sum.splits if_splits)

lemma dispatch_terminated_keep:
  assumes "dispatch h cfg tc s = (r, s')" and "\<not> requests_terminate h tc"
  shows "terminated s' = terminated s"
proof (cases r)
  case None
  with assms(1) have "dispatch h cfg tc s = (None, s')" by simp
  then obtain args p tr where l: "json_loads h (arguments_text tc) = Some args"
    and c: "call h cfg args (trace s) = (Inr p, tr)"
    and t: "terminated s' =
           (if dict_get p ''status'' = PStr ''terminate'' then dict_get p ''result''
            else terminated s)"
    by (rule dispatch_None)
  from assms(2) l have "action_of args \<noteq> PStr ''terminate''"
    by (simp add: requests_terminate_def)
  with call_status(1) [OF c] have "dict_get p ''status'' \<noteq> PStr ''terminate''" by simp
  with t show ?thesis by simp
next
  case (Some e)
  with assms(1) show ?thesis by (simp add: dispatch_Some)
qed

lemma dispatch_terminated_set:
  assumes "dispatch h cfg tc s = (None, s')" and "requests_terminate h tc"
  shows "terminated s' = PStr ''success'' \<or> terminated s' = PStr ''failure''"
proof -
  from assms(1) obtain args p tr where l: "json_loads h (arguments_text tc) = Some args"
    and c: "call h cfg args (trace s) = (Inr p, tr)"
    and t: "terminated s' =
           (if dict_get p ''status'' = PStr ''terminate'' then dict_get p ''result''
            else terminated s)"
    by (rule dispatch_None)
  from assms(2) l have a: "action_of args = PStr ''terminate''"
    by (simp add: requests_terminate_def)
  with call_status(1) [OF c] have "dict_get p ''status'' = PStr ''terminate''" by simp
  with t call_status(2) [OF c a] show ?thesis by simp
qed

lemma dispatch_verdict_keep:
  assumes "dispatch h cfg tc s = (None, s')"
    and "terminated s = PStr ''success'' \<or> terminated s = PStr ''failure''"
  shows "terminated s' = PStr ''success'' \<or> terminated s' = PStr ''failure''"
proof (cases "requests_terminate h tc")
  case True
  from dispatch_terminated_set [OF assms(1) True] show ?thesis .
next
  case False
  from dispatch_terminated_keep [OF assms(1) False] assms(2) show ?thesis by simp
qed

lemma dispatch_messages:
  assumes "dispatch h cfg tc s = (r, s')"
  shows "(r = None \<longrightarrow> (\<exists>c. messages s' = messages s @ [tool_msg (tc, c)])) \<and>
         (r \<noteq> None \<longrightarrow> messages s' = messages s)"
proof (cases r)
  case None
  with assms have "dispatch h cfg tc s = (None, s')" by simp
  then obtain p where "messages s' = messages s @ [ToolMsg (call_id tc) (fn_name tc) (as_json h p)]"
    by (rule dispatch_None)
  with None show ?thesis by (simp add: tool_msg_def)
next
  case (Some e)
  with assms show ?thesis by (simp add: dispatch_Some)
qed

lemma dispatch_all_append:
  "dispatch_all h cfg (xs @ ys) s =
     (case dispatch_all h cfg xs s of
        (Some e, s') \<Rightarrow> (Some e, s')
      | (None, s') \<Rightarrow> dispatch_all h cfg ys s')"
  by (induction xs arbitrary: s) (auto split: prod.splits option.splits)

lemma dispatch_all_None:
  "dispatch_all h cfg tcs s = (None, s') \<Longrightarrow>
   \<exists>cs. length cs = length tcs \<and> messages s' = messages s @ map tool_msg (zip tcs cs)"
proof (induction tcs arbitrary: s)
  case Nil
  then show ?case by simp
next
  case (Cons tc tcs)
  from Cons.prems obtain s1 where d: "dispatch h cfg tc s = (None, s1)"
    and r: "dispatch_all h cfg tcs s1 = (None, s')"
    by (auto split: prod.splits option.splits)
  from dispatch_messages [OF d] obtain c where c: "messages s1 = messages s @ [tool_msg (tc, c)]"
    by auto
  from Cons.IH [OF r] obtain cs where cs: "length cs = length tcs"
    and m: "messages s' = messages s1 @ map tool_msg (zip tcs cs)" by auto
  have "length (c # cs) = length (tc # tcs) \<and>
        messages s' = messages s @ map tool_msg (zip (tc # tcs) (c # cs))"
    by (simp add: cs m c)
  then show ?case by blast
qed

lemma dispatch_all_prefix:
  "dispatch_all h cfg tcs s = (r, s') \<Longrightarrow> \<exists>ext. messages s' = messages s @ ext"
proof (induction tcs arbitrary: s)
  case Nil
  then show ?case by simp
next
  case (Cons tc tcs)
  obtain r1 s1 where d: "dispatch h cfg tc s = (r1, s1)" by (cases "dispatch h cfg tc s")
  from dispatch_messages [OF d] obtain e1 where e1: "messages s1 = messages s @ e1"
    by (cases r1) auto
  show ?case
  proof (cases r1)
    case None
    with Cons.prems d have "dispatch_all h cfg tcs s1 = (r, s')" by simp
    from Cons.IH [OF this] e1 show ?thesis by auto
  next
    case (Some e)
    with Cons.prems d have "s' = s1" by simp
    with e1 show ?thesis by auto
  qed
qed

lemma dispatch_all_terminated_keep:
  "dispatch_all h cfg tcs s = (r, s') \<Longrightarrow> \<forall>tc\<in>set tcs. \<not> requests_terminate h tc \<Longrightarrow>
   terminated s' = terminated s"
proof (induction tcs arbitrary: s)
  case Nil
  then show ?case by simp
next
  case (Cons tc tcs)
  obtain r1 s1 where d: "dispatch h cfg tc s = (r1, s1)" by (cases "dispatch h cfg tc s")
  from Cons.prems(2) have nt: "\<not> requests_terminate h tc"
    and rest: "\<forall>tc\<in>set tcs. \<not> requests_terminate h tc" by simp_all
  note k = dispatch_terminated_keep [OF d nt]
  show ?case
  proof (cases r1)
    case None
    with Cons.prems(1) d have "dispatch_all h cfg tcs s1 = (r, s')" by simp
    from Cons.IH [OF this rest] k show ?thesis by simp
  next
    case (Some e)
    with Cons.prems(1) d have "s' = s1" by simp
    with k show ?thesis by simp
  qed
qed

lemma dispatch_all_verdict:
  "dispatch_all h cfg tcs s = (None, s') \<Longrightarrow>
   (terminated s = PStr ''success'' \<or> terminated s = PStr ''failure'') \<or>
     (\<exists>tc\<in>set tcs. requests_terminate h tc) \<Longrightarrow>
   terminated s' = PStr ''success'' \<or> terminated s' = PStr ''failure''"
proof (induction tcs arbitrary: s)
  case Nil
  then show ?case by simp
next
  case (Cons tc tcs)
  from Cons.prems(1) obtain s1 where d: "dispatch h cfg tc s = (None, s1)"
    and r: "dispatch_all h cfg tcs s1 = (None, s')"
    by (auto split: prod.splits option.splits)
  have "(terminated s1 = PStr ''success'' \<or> terminated s1 = PStr ''failure'') \<or>
        (\<exists>tc\<in>set tcs. requests_terminate h tc)"
  proof (cases "terminated s = PStr ''success'' \<or> terminated s = PStr ''failure''")
    case True
    from dispatch_verdict_keep [OF d True] show ?thesis by simp
  next
    case False
    with Cons.prems(2) have "requests_terminate h tc \<or> (\<exists>tc\<in>set tcs. requests_terminate h tc)"
      by simp
    then show ?thesis
    proof
      assume "requests_terminate h tc"
      from dispatch_terminated_set [OF d this] show ?thesis by simp
    qed simp
  qed
  from Cons.IH [OF r this] show ?case .
qed

lemma issued_calls_append:
  "issued_calls (xs @ ys) = issued_calls xs @ issued_calls ys"
  by (induction xs rule: issued_calls.induct) simp_all

lemma run_loop_round:
  assumes "create h (messages s) = Inr (msg # others)" and "tool_calls msg = Some tcs"
    and "tcs \<noteq> []"
  shows "run_loop h cfg (Suc n) s =
     (case dispatch_all h cfg tcs (s\<lparr>messages := messages s @ [AssistantMsg msg]\<rparr>) of
        (Some e, s2) \<Rightarrow> (Some e, s2)
      | (None, s2) \<Rightarrow> if truthy (terminated s2) then (None, s2) else run_loop h cfg n s2)"
  using assms by (simp add: Let_def)

lemma run_loop_prefix:
  "run_loop h cfg n s = (r, s') \<Longrightarrow> \<exists>ext. messages s' = messages s @ ext"
proof (induction n arbitrary: s)
  case 0
  then show ?case by simp
next
  case (Suc n)
  show ?case
  proof (cases "create h (messages s)")
    case (Inl e)
    with Suc.prems show ?thesis by simp
  next
    case (Inr choices)
    show ?thesis
    proof (cases choices)
      case Nil
      with Inr Suc.prems show ?thesis by simp
    next
      case (Cons msg others)
      let ?s1 = "s\<lparr>messages := messages s @ [AssistantMsg msg]\<rparr>"
      obtain tcs where tcs: "tcs = (case tool_calls msg of None \<Rightarrow> [] | Some cs \<Rightarrow> cs)"
        by simp
      show ?thesis
      proof (cases "tcs = []")
        case True
        with Inr Cons tcs Suc.prems show ?thesis by (auto simp add: Let_def)
      next
        case False
        with tcs have tc: "tool_calls msg = Some tcs" by (cases "tool_calls msg") simp_all
        obtain r2 s2 where d: "dispatch_all h cfg tcs ?s1 = (r2, s2)"
          by (cases "dispatch_all h cfg tcs ?s1")
        from dispatch_all_prefix [OF d] obtain e2 where
          e2: "messages s2 = messages s @ AssistantMsg msg # e2" by auto
        note rl = run_loop_round [OF Inr [unfolded Cons] tc False, of cfg n]
        show ?thesis
        proof (cases "r2 = None \<and> \<not> truthy (terminated s2)")
          case True
          with rl d Suc.prems have "run_loop h cfg n s2 = (r, s')" by simp
          from Suc.IH [OF this] e2 show ?thesis by auto
        next
          case False
          with rl d Suc.prems have "s' = s2" by (cases r2) (auto split: if_splits)
          with e2 show ?thesis by simp
        qed
      qed
    qed
  qed
qed

lemma run_loop_no_terminate:
  "run_loop h cfg n s = (r, s') \<Longrightarrow> terminated s = PNone \<Longrightarrow>
   \<forall>tc\<in>set (issued_calls (messages s')). \<not> requests_terminate h tc \<Longrightarrow>
   terminated s' = PNone"
proof (induction n arbitrary: s)
  case 0
  then show ?case by simp
next
  case (Suc n)
  show ?case
  proof (cases "create h (messages s)")
    case (Inl e)
    with Suc.prems show ?thesis by simp
  next
    case (Inr choices)
    show ?thesis
    proof (cases choices)
      case Nil
      with Inr Suc.prems show ?thesis by simp
    next
      case (Cons msg others)
      let ?s1 = "s\<lparr>messages := messages s @ [AssistantMsg msg]\<rparr>"
      obtain tcs where tcs: "tcs = (case tool_calls msg of None \<Rightarrow> [] | Some cs \<Rightarrow> cs)"
        by simp
      show ?thesis
      proof (cases "tcs = []")
        case True
        with Inr Cons tcs Suc.prems show ?thesis by (auto simp add: Let_def)
      next
        case False
        with tcs have tc: "tool_calls msg = Some tcs" by (cases "tool_calls msg") simp_all
        obtain r2 s2 where d: "dispatch_all h cfg tcs ?s1 = (r2, s2)"
          by (cases "dispatch_all h cfg tcs ?s1")
        from dispatch_all_prefix [OF d] obtain e2 where
          e2: "messages s2 = messages s @ AssistantMsg msg # e2" by auto
        note rl = run_loop_round [OF Inr [unfolded Cons] tc False, of cfg n]
        have ext: "\<exists>e3. messages s' = messages s2 @ e3"
        proof (cases "r2 = None \<and> \<not> truthy (terminated s2)")
          case True
          with rl d Suc.prems(1) have "run_loop h cfg n s2 = (r, s')" by simp
          then show ?thesis by (rule run_loop_prefix)
        next
          case False
          with rl d Suc.prems(1) have "s' = s2" by (cases r2) (auto split: if_splits)
          then show ?thesis by simp
        qed
        then obtain e3 where "messages s' = messages s @ AssistantMsg msg # e2 @ e3"
          using e2 by auto
        then have "set tcs \<subseteq> set (issued_calls (messages s'))"
          by (auto simp add: issued_calls_append tc)
        with Suc.prems(3) have nt: "\<forall>tc\<in>set tcs. \<not> requests_terminate h tc" by blast
        from dispatch_all_terminated_keep [OF d nt] Suc.prems(2)
        have t2: "terminated s2 = PNone" by simp
        show ?thesis
        proof (cases r2)
          case None
          with rl d t2 Suc.prems(1) have "run_loop h cfg n s2 = (r, s')" by simp
          from Suc.IH [OF this t2 Suc.prems(3)] show ?thesis .
        next
          case (Some e)
          with rl d Suc.prems(1) have "s' = s2" by simp
          with t2 show ?thesis by simp
        qed
      qed
    qed
  qed
qed

lemma dispatch_malformed:
  "json_loads h (arguments_text tc) = None \<Longrightarrow> dispatch h cfg tc s = (Some JSONDecodeError, s)"
  by (simp add: dispatch_def)

lemma dispatch_answer:
  assumes "json_loads h (arguments_text tc) = Some (PDict d)"
    and "map_of d ''action'' = Some (PStr ''answer'')"
  shows "\<exists>s3. dispatch h cfg tc s = (None, s3) \<and>
           final_answer s3 = py_or (dict_get d ''text'') (PStr []) \<and>
           terminated s3 = terminated s"
proof -
  have "call h cfg (PDict d) (trace s) =
        (Inr [(''status'', PStr ''answer''), (''text'', py_or (dict_get d ''text'') (PStr []))],
         trace s)"
    by (simp add: call_dict [OF assms(2) handlers_lookup(13)] answer_def Let_def)
  then show ?thesis
    by (simp add: dispatch_def assms(1) Let_def dict_get_def dict_get_default_def)
qed

section \<open>Claims about the conversation loop\<close>

text \<open>
  Claim C2 says that a tool call whose arguments are not valid JSON does not crash the
  loop and is answered by a failed tool-result message. The code does not do that:
  \<^verbatim>\<open>run\<close> calls \<^verbatim>\<open>json.loads\<close> outside any \<^verbatim>\<open>try\<close>, and no function of the
  program catches an exception. On the concrete host, a run of up to three turns whose
  first reply carries one call with a truncated argument text ends in the first round
  with the decoding error; the history holds the assistant message and no tool message.
\<close>

theorem malformed_arguments_crash:
  "run (demo_host [round_of [call_malformed]]) demo_cfg 3 (init_agent ''task'') =
   (Some JSONDecodeError, state_after (round_of [call_malformed]) [] PNone PNone [])"
  by (simp add: demo_eval)

text \<open>
  Claim C2, as the code has it. In a round whose calls before \<open>tc\<close> were dispatched
  without an exception, a call \<open>tc\<close> whose arguments the decoder rejects ends the run
  with the decoding error: the state is the one reached before \<open>tc\<close>, so the history
  holds the results of the earlier calls only, no message for \<open>tc\<close> or a later call
  is appended, and no further model turn happens.
\<close>

theorem malformed_arguments_propagate:
  assumes "create h (messages s) = Inr (msg # others)"
    and "tool_calls msg = Some (pre @ tc # rest)"
    and "json_loads h (arguments_text tc) = None"
    and "dispatch_all h cfg pre (s\<lparr>messages := messages s @ [AssistantMsg msg]\<rparr>) = (None, s1)"
  shows "run_loop h cfg (Suc n) s = (Some JSONDecodeError, s1) \<and>
         (\<exists>cs. length cs = length pre \<and>
               messages s1 = messages s @ AssistantMsg msg # map tool_msg (zip pre cs))"
proof -
  have ne: "pre @ tc # rest \<noteq> []" by simp
  have "dispatch_all h cfg (pre @ tc # rest) (s\<lparr>messages := messages s @ [AssistantMsg msg]\<rparr>) =
        (Some JSONDecodeError, s1)"
    by (simp add: dispatch_all_append assms(4) dispatch_malformed [OF assms(3)])
  then have "run_loop h cfg (Suc n) s = (Some JSONDecodeError, s1)"
    by (simp only: run_loop_round [OF assms(1) assms(2) ne]) simp
  moreover from dispatch_all_None [OF assms(4)]
  have "\<exists>cs. length cs = length pre \<and>
             messages s1 = messages s @ AssistantMsg msg # map tool_msg (zip pre cs)"
    by simp
  ultimately show ?thesis by simp
qed

text \<open>
  A round of a click, a malformed call and an answer on the concrete host: the click
  is answered, the run stops with the decoding error, the answer is never dispatched.
\<close>

theorem malformed_arguments_propagate_witness:
  "run_loop (demo_host [round_of [call_click, call_malformed, call_answer]]) demo_cfg (Suc 2)
     (init_agent ''task'') =
   (Some JSONDecodeError,
    state_after (round_of [call_click, call_malformed, call_answer])
      [ToolMsg ''call_click'' ''computer_use'' ''ok''] PNone PNone click_events) \<and>
   (\<exists>cs. length cs = length [call_click] \<and>
      messages (state_after (round_of [call_click, call_malformed, call_answer])
        [ToolMsg ''call_click'' ''computer_use'' ''ok''] PNone PNone click_events) =
      messages (init_agent ''task'') @
        AssistantMsg (round_of [call_click, call_malformed, call_answer]) #
        map tool_msg (zip [call_click] cs))"
proof -
  let ?h = "demo_host [round_of [call_click, call_malformed, call_answer]]"
  let ?msg = "round_of [call_click, call_malformed, call_answer]"
  have 1: "create ?h (messages (init_agent ''task'')) = Inr (?msg # [])"
    by (simp add: demo_eval)
  have 2: "tool_calls ?msg = Some ([call_click] @ call_malformed # [call_answer])"
    by (simp add: round_of_def)
  have 3: "json_loads ?h (arguments_text call_malformed) = None"
    by (simp add: demo_eval)
  have 4: "dispatch_all ?h demo_cfg [call_click]
             ((init_agent ''task'')\<lparr>messages := messages (init_agent ''task'') @ [AssistantMsg ?msg]\<rparr>) =
           (None, state_after ?msg [ToolMsg ''call_click'' ''computer_use'' ''ok''] PNone PNone
                    click_events)"
    by (simp add: demo_eval)
  show ?thesis by (rule malformed_arguments_propagate [OF 1 2 3 4])
qed

text \<open>
  Claim C4 says that every round with N tool calls appends exactly N tool messages.
  That holds only if no call of the round raises: an executor error leaves the inner
  loop at once. On the concrete host, a round of a click in place followed by a
  \<^verbatim>\<open>type\<close> request without a text appends one tool message for the two calls and
  ends the run with the ValueError.
\<close>

theorem error_cuts_round_short:
  "run (demo_host [round_of [call_click, call_type]]) demo_cfg 3 (init_agent ''task'') =
   (Some (ValueError ''text is required for action=type.''),
    state_after (round_of [call_click, call_type])
      [ToolMsg ''call_click'' ''computer_use'' ''ok''] PNone PNone click_events)"
  by (simp add: demo_eval)

text \<open>
  Claim C4, as the code has it. For a round with N tool calls in which every call is
  decoded and executed without an exception, exactly N tool messages are appended
  after the assistant message, in the order of the calls, each with the identifier
  and the function name of its call; if N is not zero, the run then ends if
  \<open>terminated\<close> is truthy and goes on with the next turn otherwise.
\<close>

theorem round_appends_in_order:
  assumes "create h (messages s) = Inr (msg # others)"
    and "tool_calls msg = Some tcs"
    and "dispatch_all h cfg tcs (s\<lparr>messages := messages s @ [AssistantMsg msg]\<rparr>) = (None, s2)"
  shows "(\<exists>cs. length cs = length tcs \<and>
               messages s2 = messages s @ AssistantMsg msg # map tool_msg (zip tcs cs)) \<and>
         (tcs \<noteq> [] \<longrightarrow>
            run_loop h cfg (Suc n) s =
              (if truthy (terminated s2) then (None, s2) else run_loop h cfg n s2))"
proof -
  from dispatch_all_None [OF assms(3)]
  have "\<exists>cs. length cs = length tcs \<and>
             messages s2 = messages s @ AssistantMsg msg # map tool_msg (zip tcs cs)"
    by simp
  moreover have "run_loop h cfg (Suc n) s =
           (if truthy (terminated s2) then (None, s2) else run_loop h cfg n s2)"
    if ne: "tcs \<noteq> []"
    by (simp only: run_loop_round [OF assms(1) assms(2) ne] assms(3)) simp
  ultimately show ?thesis by simp
qed

text \<open>A round of an answer and a click on the concrete host, with one turn allowed.\<close>

theorem round_appends_in_order_witness:
  "(\<exists>cs. length cs = length [call_answer, call_click] \<and>
      messages (state_after (round_of [call_answer, call_click])
        [ToolMsg ''call_answer'' ''computer_use'' ''answer'',
         ToolMsg ''call_click'' ''computer_use'' ''ok'']
        (PStr ''42'') PNone (Print ''[Agent Answer] 42'' # click_events)) =
      messages (init_agent ''task'') @ AssistantMsg (round_of [call_answer, call_click]) #
        map tool_msg (zip [call_answer, call_click] cs)) \<and>
   run_loop (demo_host [round_of [call_answer, call_click]]) demo_cfg (Suc 0) (init_agent ''task'') =
     (if truthy (terminated (state_after (round_of [call_answer, call_click])
        [ToolMsg ''call_answer'' ''computer_use'' ''answer'',
         ToolMsg ''call_click'' ''computer_use'' ''ok'']
        (PStr ''42'') PNone (Print ''[Agent Answer] 42'' # click_events)))
      then (None, state_after (round_of [call_answer, call_click])
        [ToolMsg ''call_answer'' ''computer_use'' ''answer'',
         ToolMsg ''call_click'' ''computer_use'' ''ok'']
        (PStr ''42'') PNone (Print ''[Agent Answer] 42'' # click_events))
      else run_loop (demo_host [round_of [call_answer, call_click]]) demo_cfg 0
        (state_after (round_of [call_answer, call_click])
        [ToolMsg ''call_answer'' ''computer_use'' ''answer'',
         ToolMsg ''call_click'' ''computer_use'' ''ok'']
        (PStr ''42'') PNone (Print ''[Agent Answer] 42'' # click_events)))"
proof -
  let ?h = "demo_host [round_of [call_answer, call_click]]"
  let ?msg = "round_of [call_answer, call_click]"
  have 1: "create ?h (messages (init_agent ''task'')) = Inr (?msg # [])"
    by (simp add: demo_eval)
  have 2: "tool_calls ?msg = Some [call_answer, call_click]"
    by (simp add: round_of_def)
  have 3: "[call_answer, call_click] \<noteq> []" by simp
  have 4: "dispatch_all ?h demo_cfg [call_answer, call_click]
             ((init_agent ''task'')\<lparr>messages := messages (init_agent ''task'') @ [AssistantMsg ?msg]\<rparr>) =
           (None, state_after ?msg
              [ToolMsg ''call_answer'' ''computer_use'' ''answer'',
               ToolMsg ''call_click'' ''computer_use'' ''ok'']
              (PStr ''42'') PNone (Print ''[Agent Answer] 42'' # click_events))"
    by (simp add: demo_eval)
  note t = round_appends_in_order [OF 1 2 4, of 0]
  show ?thesis by (rule conjI [OF conjunct1 [OF t] mp [OF conjunct2 [OF t] 3]])
qed

text \<open>
  Claim C3 says that after a call resolved to \<^verbatim>\<open>terminate\<close> every remaining call of
  the round is still dispatched and answered. The termination itself never cuts the
  round short, but an exception does: on the concrete host, in a round of a
  \<^verbatim>\<open>terminate\<close> followed by a \<^verbatim>\<open>type\<close> request without a text, the verdict is
  recorded, the second call raises, and the run is aborted in the middle of the
  round with one tool message for the two calls.
\<close>

theorem error_after_terminate_aborts_round:
  "run (demo_host [round_of [call_terminate, call_type]]) demo_cfg 3 (init_agent ''task'') =
   (Some (ValueError ''text is required for action=type.''),
    state_after (round_of [call_terminate, call_type])
      [ToolMsg ''call_terminate'' ''computer_use'' ''terminate''] PNone (PStr ''success'')
      [Print ''[Terminate] status=success''])"
  by (simp add: demo_eval)

text \<open>
  Claim C3, as the code has it. In a round in which some call requests
  \<^verbatim>\<open>terminate\<close> and every call of the round is decoded and executed without an
  exception, all calls of the round are dispatched, also those after the terminating
  one, each gets its tool message in the order of the calls, the recorded verdict is
  \<^verbatim>\<open>success\<close> or \<^verbatim>\<open>failure\<close>, and the run ends right after the round, whatever
  number of turns is left.
\<close>

theorem terminate_finishes_round:
  assumes "create h (messages s) = Inr (msg # others)"
    and "tool_calls msg = Some tcs"
    and "tc \<in> set tcs"
    and "requests_terminate h tc"
    and "dispatch_all h cfg tcs (s\<lparr>messages := messages s @ [AssistantMsg msg]\<rparr>) = (None, s2)"
  shows "run_loop h cfg (Suc n) s = (None, s2) \<and>
         (\<exists>cs. length cs = length tcs \<and>
               messages s2 = messages s @ AssistantMsg msg # map tool_msg (zip tcs cs)) \<and>
         (terminated s2 = PStr ''success'' \<or> terminated s2 = PStr ''failure'')"
proof -
  from assms(3) have ne: "tcs \<noteq> []" by auto
  from assms(3) assms(4) have "\<exists>tc\<in>set tcs. requests_terminate h tc" by blast
  then have v: "terminated s2 = PStr ''success'' \<or> terminated s2 = PStr ''failure''"
    by (simp add: dispatch_all_verdict [OF assms(5)])
  then have t: "truthy (terminated s2)" by auto
  have "run_loop h cfg (Suc n) s = (None, s2)"
    by (simp only: run_loop_round [OF assms(1) assms(2) ne] assms(5)) (simp add: t)
  moreover from dispatch_all_None [OF assms(5)]
  have "\<exists>cs. length cs = length tcs \<and>
             messages s2 = messages s @ AssistantMsg msg # map tool_msg (zip tcs cs)"
    by simp
  ultimately show ?thesis using v by simp
qed

text \<open>
  A round of a \<^verbatim>\<open>terminate\<close> followed by an \<^verbatim>\<open>answer\<close> on the concrete host, with
  three turns allowed: both calls are answered, the answer is recorded, the run ends.
\<close>

theorem terminate_finishes_round_witness:
  "run_loop (demo_host [round_of [call_terminate, call_answer]]) demo_cfg (Suc 2)
     (init_agent ''task'') =
   (None, state_after (round_of [call_terminate, call_answer])
      [ToolMsg ''call_terminate'' ''computer_use'' ''terminate'',
       ToolMsg ''call_answer'' ''computer_use'' ''answer'']
      (PStr ''42'') (PStr ''success'')
      [Print ''[Terminate] status=success'', Print ''[Agent Answer] 42'']) \<and>
   (\<exists>cs. length cs = length [call_terminate, call_answer] \<and>
      messages (state_after (round_of [call_terminate, call_answer])
        [ToolMsg ''call_terminate'' ''computer_use'' ''terminate'',
         ToolMsg ''call_answer'' ''computer_use'' ''answer'']
        (PStr ''42'') (PStr ''success'')
        [Print ''[Terminate] status=success'', Print ''[Agent Answer] 42'']) =
      messages (init_agent ''task'') @ AssistantMsg (round_of [call_terminate, call_answer]) #
        map tool_msg (zip [call_terminate, call_answer] cs)) \<and>
   (terminated (state_after (round_of [call_terminate, call_answer])
        [ToolMsg ''call_terminate'' ''computer_use'' ''terminate'',
         ToolMsg ''call_answer'' ''computer_use'' ''answer'']
        (PStr ''42'') (PStr ''success'')
        [Print ''[Terminate] status=success'', Print ''[Agent Answer] 42'']) = PStr ''success'' \<or>
    terminated (state_after (round_of [call_terminate, call_answer])
        [ToolMsg ''call_terminate'' ''computer_use'' ''terminate'',
         ToolMsg ''call_answer'' ''computer_use'' ''answer'']
        (PStr ''42'') (PStr ''success'')
        [Print ''[Terminate] status=success'', Print ''[Agent Answer] 42'']) = PStr ''failure'')"
proof -
  let ?h = "demo_host [round_of [call_terminate, call_answer]]"
  let ?msg = "round_of [call_terminate, call_answer]"
  have 1: "create ?h (messages (init_agent ''task'')) = Inr (?msg # [])"
    by (simp add: demo_eval)
  have 2: "tool_calls ?msg = Some [call_terminate, call_answer]"
    by (simp add: round_of_def)
  have 3: "call_terminate \<in> set [call_terminate, call_answer]" by simp
  have 4: "requests_terminate ?h call_terminate"
    by (simp add: requests_terminate_def action_of_def demo_eval)
  have 5: "dispatch_all ?h demo_cfg [call_terminate, call_answer]
             ((init_agent ''task'')\<lparr>messages := messages (init_agent ''task'') @ [AssistantMsg ?msg]\<rparr>) =
           (None, state_after ?msg
              [ToolMsg ''call_terminate'' ''computer_use'' ''terminate'',
               ToolMsg ''call_answer'' ''computer_use'' ''answer'']
              (PStr ''42'') (PStr ''success'')
              [Print ''[Terminate] status=success'', Print ''[Agent Answer] 42''])"
    by (simp add: demo_eval)
  show ?thesis by (rule terminate_finishes_round [OF 1 2 3 4 5])
qed

text \<open>
  Claim C5. A run that starts with \<open>terminated\<close> unset and in whose history no
  assistant message carries a call requesting \<^verbatim>\<open>terminate\<close> ends with \<open>terminated\<close>
  still unset, however it ends and whatever answers were recorded; so does a run
  that uses up its turns. An \<^verbatim>\<open>answer\<close> call records its text as the final answer and
  leaves \<open>terminated\<close> as it was; and after a round without an exception and without
  a \<^verbatim>\<open>terminate\<close> request the loop goes on with the next turn.
\<close>

theorem answer_does_not_stop_run:
  assumes "terminated s = PNone"
    and "run_loop h cfg n s = (r, s')"
    and "\<forall>tc\<in>set (issued_calls (messages s')). \<not> requests_terminate h tc"
    and "json_loads h (arguments_text tc) = Some (PDict d)"
    and "map_of d ''action'' = Some (PStr ''answer'')"
    and "create h (messages s) = Inr (msg # others)"
    and "tool_calls msg = Some tcs"
    and "tcs \<noteq> []"
    and "\<forall>tc\<in>set tcs. \<not> requests_terminate h tc"
    and "dispatch_all h cfg tcs (s\<lparr>messages := messages s @ [AssistantMsg msg]\<rparr>) = (None, s2)"
  shows "terminated s' = PNone \<and>
         (\<exists>s3. dispatch h cfg tc s = (None, s3) \<and>
            final_answer s3 = py_or (dict_get d ''text'') (PStr []) \<and>
            terminated s3 = terminated s) \<and>
         run_loop h cfg (Suc k) s = run_loop h cfg k s2"
proof -
  have a: "terminated s' = PNone"
    by (rule run_loop_no_terminate [OF assms(2) assms(1) assms(3)])
  note b = dispatch_answer [OF assms(4) assms(5), of cfg s]
  from dispatch_all_terminated_keep [OF assms(10) assms(9)] assms(1)
  have "terminated s2 = PNone" by simp
  then have "\<not> truthy (terminated s2)" by simp
  then have c: "run_loop h cfg (Suc k) s = run_loop h cfg k s2"
    by (simp only: run_loop_round [OF assms(6) assms(7) assms(8)] assms(10)) simp
  from a b c show ?thesis by simp
qed

text \<open>
  Two turns on the concrete host, an answer in the first and a click in the second:
  the run ends at the turn limit with the answer recorded and \<open>terminated\<close> unset.
\<close>

theorem answer_does_not_stop_run_witness:
  "run_loop (demo_host [round_of [call_answer], round_of [call_click]]) demo_cfg 2
     (init_agent ''task'') =
   (None, state_after (round_of [call_answer])
      [ToolMsg ''call_answer'' ''computer_use'' ''answer'', AssistantMsg (round_of [call_click]),
       ToolMsg ''call_click'' ''computer_use'' ''ok'']
      (PStr ''42'') PNone (Print ''[Agent Answer] 42'' # click_events)) \<and>
   terminated (state_after (round_of [call_answer])
      [ToolMsg ''call_answer'' ''computer_use'' ''answer'', AssistantMsg (round_of [call_click]),
       ToolMsg ''call_click'' ''computer_use'' ''ok'']
      (PStr ''42'') PNone (Print ''[Agent Answer] 42'' # click_events)) = PNone \<and>
   (\<exists>s3. dispatch (demo_host [round_of [call_answer], round_of [call_click]]) demo_cfg call_answer
            (init_agent ''task'') = (None, s3) \<and>
      final_answer s3 =
        py_or (dict_get [(''action'', PStr ''answer''), (''text'', PStr ''42'')] ''text'') (PStr []) \<and>
      terminated s3 = terminated (init_agent ''task'')) \<and>
   run_loop (demo_host [round_of [call_answer], round_of [call_click]]) demo_cfg (Suc 1)
     (init_agent ''task'') =
   run_loop (demo_host [round_of [call_answer], round_of [call_click]]) demo_cfg 1
     (state_after (round_of [call_answer])
        [ToolMsg ''call_answer'' ''computer_use'' ''answer''] (PStr ''42'') PNone
        [Print ''[Agent Answer] 42''])"
proof -
  let ?h = "demo_host [round_of [call_answer], round_of [call_click]]"
  let ?msg = "round_of [call_answer]"
  let ?s' = "state_after (round_of [call_answer])
      [ToolMsg ''call_answer'' ''computer_use'' ''answer'', AssistantMsg (round_of [call_click]),
       ToolMsg ''call_click'' ''computer_use'' ''ok'']
      (PStr ''42'') PNone (Print ''[Agent Answer] 42'' # click_events)"
  have 1: "terminated (init_agent ''task'') = PNone"
    by (simp add: init_agent_def)
  have 2: "run_loop ?h demo_cfg 2 (init_agent ''task'') = (None, ?s')"
    by (simp add: demo_eval)
  have 3: "\<forall>tc\<in>set (issued_calls (messages ?s')). \<not> requests_terminate ?h tc"
    by (simp add: requests_terminate_def action_of_def demo_eval)
  have 4: "json_loads ?h (arguments_text call_answer) =
           Some (PDict [(''action'', PStr ''answer''), (''text'', PStr ''42'')])"
    by (simp add: demo_eval)
  have 5: "map_of [(''action'', PStr ''answer''), (''text'', PStr ''42'')] ''action'' =
           Some (PStr ''answer'')" by simp
  have 6: "create ?h (messages (init_agent ''task'')) = Inr (?msg # [])"
    by (simp add: demo_eval)
  have 7: "tool_calls ?msg = Some [call_answer]"
    by (simp add: round_of_def)
  have 8: "[call_answer] \<noteq> []" by simp
  have 9: "\<forall>tc\<in>set [call_answer]. \<not> requests_terminate ?h tc"
    by (simp add: requests_terminate_def action_of_def demo_eval)
  have 10: "dispatch_all ?h demo_cfg [call_answer]
             ((init_agent ''task'')\<lparr>messages := messages (init_agent ''task'') @ [AssistantMsg ?msg]\<rparr>) =
           (None, state_after ?msg [ToolMsg ''call_answer'' ''computer_use'' ''answer'']
              (PStr ''42'') PNone [Print ''[Agent Answer] 42''])"
    by (simp add: demo_eval)
  show ?thesis by (rule conjI [OF 2 answer_does_not_stop_run [OF 1 2 3 4 5 6 7 8 9 10]])
qed

end
